theory Spec2Isabelle
  imports Main "HOL-Library.AList"
begin

section \<open>Python values used by uiuccourse.py\<close>

text \<open>
  The module is Python 2. Its strings are byte strings (\<open>str\<close>), modelled as
  \<open>string\<close>; its dictionaries are association lists read with \<open>map_of\<close> and written
  with \<open>AList.update\<close> (an existing key is replaced in place, a new key is added), so that
  every definition below can be evaluated. An exception is a value of type \<open>error\<close>.
\<close>

datatype error = AttributeError | IndexError | KeyError | ValueError | URLError

text \<open>\<open>str.lower()\<close> and \<open>str.upper()\<close> on ASCII letters.\<close>

definition lower_char :: "char \<Rightarrow> char" where
  "lower_char c =
     (case map_of (zip ''ABCDEFGHIJKLMNOPQRSTUVWXYZ'' ''abcdefghijklmnopqrstuvwxyz'') c of
        None \<Rightarrow> c | Some d \<Rightarrow> d)"

definition upper_char :: "char \<Rightarrow> char" where
  "upper_char c =
     (case map_of (zip ''abcdefghijklmnopqrstuvwxyz'' ''ABCDEFGHIJKLMNOPQRSTUVWXYZ'') c of
        None \<Rightarrow> c | Some d \<Rightarrow> d)"

definition lower :: "string \<Rightarrow> string" where
  "lower s = map lower_char s"

definition upper :: "string \<Rightarrow> string" where
  "upper s = map upper_char s"

text \<open>
  The whitespace of \<open>str.strip()\<close> and of the pattern \<open>\s\<close>: space, tab, line feed,
  vertical tab, form feed, carriage return.
\<close>

definition isspace :: "char \<Rightarrow> bool" where
  "isspace c = (c \<in> set [CHR '' '', CHR 0x09, CHR 0x0A, CHR 0x0B, CHR 0x0C, CHR 0x0D])"

definition strip :: "string \<Rightarrow> string" where
  "strip s = rev (dropWhile isspace (rev (dropWhile isspace s)))"

text \<open>\<open>re.compile('\s+').sub(' ', s)\<close>: every maximal run of whitespace becomes one space.\<close>

function re_cleaner_sub :: "string \<Rightarrow> string" where
  "re_cleaner_sub [] = []"
| "re_cleaner_sub (c # cs) =
     (if isspace c then CHR '' '' # re_cleaner_sub (dropWhile isspace cs)
      else c # re_cleaner_sub cs)"
  by pat_completeness auto
termination
  by (relation "measure length") (auto simp: length_dropWhile_le less_Suc_eq_le)

text \<open>\<open>s.split(sep)\<close> for a one-character separator: the pieces between the separators.\<close>

fun split :: "string \<Rightarrow> char \<Rightarrow> string list" where
  "split [] sep = [[]]"
| "split (c # cs) sep =
     (if c = sep then [] # split cs sep
      else (case split cs sep of [] \<Rightarrow> [[c]] | p # ps \<Rightarrow> (c # p) # ps))"

text \<open>\<open>xs[i]\<close> for a non-negative index: IndexError when out of range.\<close>

definition getitem :: "'a list \<Rightarrow> nat \<Rightarrow> error + 'a" where
  "getitem xs i = (if i < length xs then Inr (xs ! i) else Inl IndexError)"

text \<open>
  \<open>int(s)\<close> on a byte string, base ten: whitespace around the literal is ignored, then
  come an optional sign and at least one decimal digit and nothing else (the C routine
  of Python 2 also skips whitespace between the sign and the digits). \<open>None\<close> stands for
  the ValueError.
\<close>

definition digit_val :: "char \<Rightarrow> nat option" where
  "digit_val c =
     map_of [(CHR ''0'', 0), (CHR ''1'', 1), (CHR ''2'', 2), (CHR ''3'', 3), (CHR ''4'', 4),
             (CHR ''5'', 5), (CHR ''6'', 6), (CHR ''7'', 7), (CHR ''8'', 8), (CHR ''9'', 9)] c"

fun digits_val :: "nat \<Rightarrow> string \<Rightarrow> nat option" where
  "digits_val acc [] = Some acc"
| "digits_val acc (c # cs) =
     (case digit_val c of None \<Rightarrow> None | Some d \<Rightarrow> digits_val (10 * acc + d) cs)"

definition py_int :: "string \<Rightarrow> int option" where
  "py_int s =
     (case strip s of
        [] \<Rightarrow> None
      | c # cs \<Rightarrow>
          if c = CHR ''-'' then
            (if dropWhile isspace cs = [] then None
             else map_option (\<lambda>n. - int n) (digits_val 0 (dropWhile isspace cs)))
          else if c = CHR ''+'' then
            (if dropWhile isspace cs = [] then None
             else map_option int (digits_val 0 (dropWhile isspace cs)))
          else map_option int (digits_val 0 (c # cs)))"

text \<open>\<open>str(n)\<close> on an integer: its decimal digits, with a minus sign when negative.\<close>

fun str_nat :: "nat \<Rightarrow> string" where
  "str_nat n =
     (if n < 10 then [''0123456789'' ! n]
      else str_nat (n div 10) @ [''0123456789'' ! (n mod 10)])"

declare str_nat.simps [simp del]

definition str_int :: "int \<Rightarrow> string" where
  "str_int i = (if i < 0 then CHR ''-'' # str_nat (nat (- i)) else str_nat (nat i))"

section \<open>The callbacks of HTMLParser\<close>

text \<open>
  \<open>HTMLParser.feed\<close> tokenises the markup and calls \<open>handle_starttag(tag, attrs)\<close>,
  \<open>handle_endtag(tag)\<close> and \<open>handle_data(data)\<close>. \<open>attrs\<close> is a list of
  (name, value) pairs whose value is \<open>None\<close> for an attribute written without one.
  None of the three parsers overrides \<open>handle_endtag\<close>, so an end tag changes nothing.
\<close>

type_synonym attrs = "(string \<times> string option) list"

datatype html_event = StartTag string attrs | EndTag string | Data string

text \<open>\<open>dict(attrs).get(k)\<close>: the last pair with name \<open>k\<close> wins; absent gives \<open>None\<close>.\<close>

definition attrs_get :: "attrs \<Rightarrow> string \<Rightarrow> string option" where
  "attrs_get attrs k = (case map_of (rev attrs) k of None \<Rightarrow> None | Some v \<Rightarrow> v)"

fun feed ::
  "('s \<Rightarrow> string \<Rightarrow> attrs \<Rightarrow> error + 's) \<Rightarrow> ('s \<Rightarrow> string \<Rightarrow> error + 's) \<Rightarrow>
   's \<Rightarrow> html_event list \<Rightarrow> error + 's" where
  "feed starttag data s [] = Inr s"
| "feed starttag data s (StartTag tag attrs # es) =
     (case starttag s tag attrs of Inl e \<Rightarrow> Inl e | Inr s' \<Rightarrow> feed starttag data s' es)"
| "feed starttag data s (EndTag tag # es) = feed starttag data s es"
| "feed starttag data s (Data d # es) =
     (case data s d of Inl e \<Rightarrow> Inl e | Inr s' \<Rightarrow> feed starttag data s' es)"

section \<open>UIUCSubjectListParser\<close>

record subject_parser =
  sp_subject_list :: "string list"
  sp_ready :: bool

definition subject_parser_init :: subject_parser where
  "subject_parser_init = \<lparr>sp_subject_list = [], sp_ready = False\<rparr>"

definition subject_handle_starttag :: "subject_parser \<Rightarrow> string \<Rightarrow> attrs \<Rightarrow> subject_parser" where
  "subject_handle_starttag s tag attrs =
     (if lower tag = ''div'' \<and> attrs_get attrs ''class'' = Some ''ws-course-number''
      then s\<lparr>sp_ready := True\<rparr>
      else s\<lparr>sp_ready := False\<rparr>)"

definition subject_handle_data :: "subject_parser \<Rightarrow> string \<Rightarrow> subject_parser" where
  "subject_handle_data s d =
     (if sp_ready s then s\<lparr>sp_subject_list := sp_subject_list s @ [d]\<rparr> else s)"

definition UIUCSubjectListParser :: "html_event list \<Rightarrow> error + string list" where
  "UIUCSubjectListParser es =
     (case feed (\<lambda>s tag attrs. Inr (subject_handle_starttag s tag attrs))
                (\<lambda>s d. Inr (subject_handle_data s d)) subject_parser_init es of
        Inl e \<Rightarrow> Inl e
      | Inr s \<Rightarrow> Inr (sp_subject_list s))"

section \<open>UIUCCourseListParser\<close>

record course_parser =
  cp_course_no :: "string list"
  cp_ready :: bool

definition course_parser_init :: course_parser where
  "course_parser_init = \<lparr>cp_course_no = [], cp_ready = False\<rparr>"

definition course_handle_starttag :: "course_parser \<Rightarrow> string \<Rightarrow> attrs \<Rightarrow> course_parser" where
  "course_handle_starttag s tag attrs =
     (if lower tag = ''div'' \<and> attrs_get attrs ''class'' = Some ''ws-course-number''
      then s\<lparr>cp_ready := True\<rparr>
      else s\<lparr>cp_ready := False\<rparr>)"

text \<open>\<open>self.course_no.append(data.split(' ')[1])\<close>: the index raises before the append.\<close>

definition course_handle_data :: "course_parser \<Rightarrow> string \<Rightarrow> error + course_parser" where
  "course_handle_data s d =
     (if cp_ready s then
        (case getitem (split d CHR '' '') 1 of
           Inl e \<Rightarrow> Inl e
         | Inr tok \<Rightarrow> Inr (s\<lparr>cp_course_no := cp_course_no s @ [tok]\<rparr>))
      else Inr s)"

definition UIUCCourseListParser :: "html_event list \<Rightarrow> error + string list" where
  "UIUCCourseListParser es =
     (case feed (\<lambda>s tag attrs. Inr (course_handle_starttag s tag attrs))
                course_handle_data course_parser_init es of
        Inl e \<Rightarrow> Inl e
      | Inr s \<Rightarrow> Inr (cp_course_no s))"

section \<open>UIUCSectionListParser\<close>

type_synonym section_dict = "(string \<times> string) list"
type_synonym sections = "(int \<times> section_dict) list"

record section_parser =
  sections :: sections
  current_crn :: "int option"
  property_to_write :: "string option"

definition section_parser_init :: section_parser where
  "section_parser_init = \<lparr>sections = [], current_crn = None, property_to_write = None\<rparr>"

text \<open>\<open>self.headers\<close>, set once by the constructor and never written again.\<close>

definition headers :: "string list" where
  "headers = [''ws-crn'', ''ws-type'', ''ws-section'', ''ws-time'',
              ''ws-days'', ''ws-location'', ''ws-instructor'']"

text \<open>
  The test of the second \<open>if\<close> is
  \<open>tag.lower() == 'td' and (attrs.get('headers') in self.headers and
  attrs.get('class').strip()) == 'ws-row'\<close>. When the tag is \<open>td\<close> and the headers
  attribute is in the list, \<open>attrs.get('class').strip()\<close> is evaluated, and it raises
  AttributeError when \<open>attrs.get('class')\<close> is \<open>None\<close>. When the headers attribute is
  not in the list the parenthesis is \<open>False\<close>, which is not equal to \<open>'ws-row'\<close>.
\<close>

definition section_handle_starttag ::
  "section_parser \<Rightarrow> string \<Rightarrow> attrs \<Rightarrow> error + section_parser" where
  "section_handle_starttag s tag attrs =
     (if lower tag = ''br'' \<and> property_to_write s = Some ''ws-location'' then Inr s
      else if lower tag = ''td'' then
        (case attrs_get attrs ''headers'' of
           None \<Rightarrow> Inr (s\<lparr>property_to_write := None\<rparr>)
         | Some h \<Rightarrow>
             if h \<in> set headers then
               (case attrs_get attrs ''class'' of
                  None \<Rightarrow> Inl AttributeError
                | Some c \<Rightarrow>
                    if strip c = ''ws-row'' then Inr (s\<lparr>property_to_write := Some h\<rparr>)
                    else Inr (s\<lparr>property_to_write := None\<rparr>))
             else Inr (s\<lparr>property_to_write := None\<rparr>))
      else Inr (s\<lparr>property_to_write := None\<rparr>))"

text \<open>
  \<open>handle_data\<close>. The inner test \<open>property_to_write == 'ws-crn'\<close> of the \<open>elif\<close> branch is
  kept as written (there \<open>int(data)\<close> is not guarded), although the first test has
  already taken that case. \<open>self.sections[self.current_crn]\<close> raises KeyError when the
  key is missing.
\<close>

definition section_handle_data :: "section_parser \<Rightarrow> string \<Rightarrow> error + section_parser" where
  "section_handle_data s d =
     (if property_to_write s = Some ''ws-crn'' then
        (case py_int d of
           None \<Rightarrow> Inr (s\<lparr>current_crn := None\<rparr>)
         | Some n \<Rightarrow> Inr (s\<lparr>current_crn := Some n, sections := AList.update n [] (sections s)\<rparr>))
      else
        (case (current_crn s, property_to_write s) of
           (Some crn, Some p) \<Rightarrow>
             (let data = re_cleaner_sub (strip d) in
              if p = ''ws-crn'' then
                (case py_int data of
                   None \<Rightarrow> Inl ValueError
                 | Some n \<Rightarrow>
                     Inr (s\<lparr>current_crn := Some n, sections := AList.update n [] (sections s)\<rparr>))
              else
                (case map_of (sections s) crn of
                   None \<Rightarrow> Inl KeyError
                 | Some current_section \<Rightarrow>
                     (case map_of current_section (drop 3 p) of
                        None \<Rightarrow>
                          Inr (s\<lparr>sections := AList.update crn
                                 (AList.update (drop 3 p) data current_section) (sections s)\<rparr>)
                      | Some v \<Rightarrow>
                          Inr (s\<lparr>sections := AList.update crn
                                 (AList.update (drop 3 p) (v @ '', '' @ data) current_section)
                                 (sections s)\<rparr>))))
         | _ \<Rightarrow> Inr s))"

definition UIUCSectionListParser :: "html_event list \<Rightarrow> error + sections" where
  "UIUCSectionListParser es =
     (case feed section_handle_starttag section_handle_data section_parser_init es of
        Inl e \<Rightarrow> Inl e
      | Inr s \<Rightarrow> Inr (sections s))"

section \<open>UIUCCourseFetcher\<close>

text \<open>
  \<open>urllib2.urlopen\<close> and the tokeniser of \<open>HTMLParser\<close> are outside the module. They are
  the parameter \<open>net\<close>: given the URLs requested so far and the URL requested now, the
  callbacks the tokeniser makes on the lines of that resource (those made by \<open>close()\<close>
  included: \<open>get_result()\<close> hands out the parser's own list or dictionary, so they are
  part of the result), or the exception raised.
\<close>

type_synonym net = "string list \<Rightarrow> string \<Rightarrow> error + html_event list"

text \<open>A course number is passed as an integer (\<open>fetch('CS', 493)\<close>) or as a string.\<close>

datatype course_no = IntNo int | StrNo string

fun str_course_no :: "course_no \<Rightarrow> string" where
  "str_course_no (IntNo n) = str_int n"
| "str_course_no (StrNo s) = s"

type_synonym courses = "(course_no \<times> sections) list"
type_synonym schedule = "(string \<times> courses) list"

text \<open>
  The instance: \<open>self.urls\<close>, the three caches, and \<open>requests\<close>, which is not a field of the
  class: it records every URL given to \<open>urlopen\<close>, in order.
\<close>

record fetcher =
  urls_root :: string
  urls_portal :: string
  subject_list :: "string list option"
  course_list :: "(string \<times> string list) list"
  section_list :: schedule
  requests :: "string list"

definition flush :: "fetcher \<Rightarrow> fetcher" where
  "flush f = f\<lparr>subject_list := None, course_list := [], section_list := []\<rparr>"

text \<open>
  The test of \<open>__init__\<close> on the lowered term:
  \<open>term == None or (term != 'spring' or term != 'fall' or term != 'summer')\<close>.
\<close>

definition term_rejected :: "string option \<Rightarrow> bool" where
  "term_rejected t =
     (case t of
        None \<Rightarrow> True
      | Some x \<Rightarrow> x \<noteq> ''spring'' \<or> x \<noteq> ''fall'' \<or> x \<noteq> ''summer'')"

definition term_of_month :: "nat \<Rightarrow> string" where
  "term_of_month m = (if m < 5 then ''spring'' else if m < 8 then ''summer'' else ''fall'')"

text \<open>
  \<open>__init__(year, term)\<close>; \<open>today_year\<close> and \<open>today_month\<close> are what
  \<open>datetime.date.today()\<close> gives.
\<close>

definition fetcher_init :: "int \<Rightarrow> nat \<Rightarrow> int option \<Rightarrow> string option \<Rightarrow> fetcher" where
  "fetcher_init today_year today_month year_arg term_arg =
     (let year = (case year_arg of None \<Rightarrow> today_year | Some y \<Rightarrow> y);
          t = map_option lower term_arg;
          t' = (if term_rejected t then term_of_month today_month
                else (case t of None \<Rightarrow> term_of_month today_month | Some x \<Rightarrow> x));
          site_root = ''http://courses.illinois.edu/cis/''
      in flush \<lparr>urls_root = site_root @ str_int year @ ''/'' @ t' @ ''/schedule/'',
                urls_portal = site_root @ str_int year @ ''/'' @ t' @ ''/schedule/index.html'',
                subject_list = None, course_list = [], section_list = [], requests = []\<rparr>)"

text \<open>
  \<open>__parse_url(parser, url)\<close>. Every caller passes a parser class and a URL, so the guard on
  \<open>None\<close> arguments never fires. A parser class is the function from the callbacks to
  its result.
\<close>

definition parse_url ::
  "net \<Rightarrow> (html_event list \<Rightarrow> error + 'r) \<Rightarrow> string \<Rightarrow> fetcher \<Rightarrow> (error + 'r) \<times> fetcher" where
  "parse_url net parser url f =
     (let f' = f\<lparr>requests := requests f @ [url]\<rparr> in
      case net (requests f) url of
        Inl e \<Rightarrow> (Inl e, f')
      | Inr es \<Rightarrow> (parser es, f'))"

text \<open>The truth value of \<open>d.get(k)\<close>: false when the key is absent or its value is empty.\<close>

definition truthy :: "'a list option \<Rightarrow> bool" where
  "truthy v = (case v of None \<Rightarrow> False | Some [] \<Rightarrow> False | Some (x # xs) \<Rightarrow> True)"

definition fetch_subject_list :: "net \<Rightarrow> fetcher \<Rightarrow> (error + string list) \<times> fetcher" where
  "fetch_subject_list net f =
     (case subject_list f of
        None \<Rightarrow>
          (case parse_url net UIUCSubjectListParser (urls_portal f) f of
             (Inl e, f') \<Rightarrow> (Inl e, f')
           | (Inr r, f') \<Rightarrow> (Inr r, f'\<lparr>subject_list := Some r\<rparr>))
      | Some l \<Rightarrow> (Inr l, f))"

definition fetch_course_list ::
  "net \<Rightarrow> fetcher \<Rightarrow> string \<Rightarrow> (error + string list) \<times> fetcher" where
  "fetch_course_list net f subject =
     (if \<not> truthy (map_of (course_list f) subject) then
        (case parse_url net UIUCCourseListParser (urls_root f @ upper subject @ ''/'') f of
           (Inl e, f') \<Rightarrow> (Inl e, f')
         | (Inr r, f') \<Rightarrow> (Inr r, f'\<lparr>course_list := AList.update subject r (course_list f')\<rparr>))
      else
        (case map_of (course_list f) subject of
           None \<Rightarrow> (Inl KeyError, f)
         | Some l \<Rightarrow> (Inr l, f)))"

definition fetch_section_list ::
  "net \<Rightarrow> fetcher \<Rightarrow> string \<Rightarrow> course_no \<Rightarrow> (error + sections) \<times> fetcher" where
  "fetch_section_list net f subject course =
     (let f1 = (if \<not> truthy (map_of (section_list f) subject)
                then f\<lparr>section_list := AList.update subject [] (section_list f)\<rparr>
                else f)
      in case map_of (section_list f1) subject of
           None \<Rightarrow> (Inl KeyError, f1)
         | Some by_course \<Rightarrow>
             if \<not> truthy (map_of by_course course) then
               (case parse_url net UIUCSectionListParser
                       (urls_root f1 @ upper subject @ ''/'' @ str_course_no course @ ''.html'') f1 of
                  (Inl e, f2) \<Rightarrow> (Inl e, f2)
                | (Inr r, f2) \<Rightarrow>
                    (Inr r, f2\<lparr>section_list :=
                       AList.update subject (AList.update course r by_course) (section_list f2)\<rparr>))
             else
               (case map_of by_course course of
                  None \<Rightarrow> (Inl KeyError, f1)
                | Some r \<Rightarrow> (Inr r, f1)))"

text \<open>
  The argument \<open>subject\<close> of \<open>fetch\<close>: \<open>None\<close>, a \<open>str\<close>, a \<open>list\<close>, or a \<open>tuple\<close>
  (the docstring: "a string for a single subject or a tuple for multiple subjects").
\<close>

datatype subject_arg =
  NoSubject | Subject string | SubjectList "string list" | SubjectTuple "string list"

text \<open>
  The inner loop of \<open>fetch\<close>, \<open>for course in course_list[subject]\<close>, on the dictionary
  \<open>section_list[subject]\<close> of the result; an exception leaves the loop.
\<close>

fun fetch_courses ::
  "net \<Rightarrow> string \<Rightarrow> string list \<Rightarrow> courses \<Rightarrow> fetcher \<Rightarrow> (error + courses) \<times> fetcher" where
  "fetch_courses net subject [] acc f = (Inr acc, f)"
| "fetch_courses net subject (course # rest) acc f =
     (case fetch_section_list net f subject (StrNo course) of
        (Inl e, f') \<Rightarrow> (Inl e, f')
      | (Inr r, f') \<Rightarrow> fetch_courses net subject rest (AList.update (StrNo course) r acc) f')"

text \<open>
  The outer loop, \<open>for subject in subject_list\<close>, on the result \<open>section_list\<close>. The
  dictionary stored under \<open>subject\<close> is the one the inner loop fills, and nothing reads
  the result before the loops end, so it is stored here when the inner loop is done.
\<close>

fun fetch_subjects ::
  "net \<Rightarrow> string list \<Rightarrow> schedule \<Rightarrow> fetcher \<Rightarrow> (error + schedule) \<times> fetcher" where
  "fetch_subjects net [] acc f = (Inr acc, f)"
| "fetch_subjects net (subject # rest) acc f =
     (case fetch_course_list net f subject of
        (Inl e, f1) \<Rightarrow> (Inl e, f1)
      | (Inr cl, f1) \<Rightarrow>
          (case fetch_courses net subject cl [] f1 of
             (Inl e, f2) \<Rightarrow> (Inl e, f2)
           | (Inr by_course, f2) \<Rightarrow>
               fetch_subjects net rest (AList.update subject by_course acc) f2))"

definition fetch ::
  "net \<Rightarrow> fetcher \<Rightarrow> subject_arg \<Rightarrow> course_no option \<Rightarrow> (error + schedule) \<times> fetcher" where
  "fetch net f subject course =
     (case subject of
        Subject s \<Rightarrow>
          (case course of
             None \<Rightarrow> fetch_subjects net [s] [] f
           | Some c \<Rightarrow>
               (case fetch_section_list net f s c of
                  (Inl e, f') \<Rightarrow> (Inl e, f')
                | (Inr r, f') \<Rightarrow> (Inr [(s, [(c, r)])], f')))
      | SubjectList l \<Rightarrow> fetch_subjects net l [] f
      | _ \<Rightarrow>
          (case fetch_subject_list net f of
             (Inl e, f') \<Rightarrow> (Inl e, f')
           | (Inr l, f') \<Rightarrow> fetch_subjects net l [] f'))"

definition fetch_all :: "net \<Rightarrow> fetcher \<Rightarrow> (error + schedule) \<times> fetcher" where
  "fetch_all net f = fetch net f NoSubject None"

section \<open>Notions used to state the properties\<close>

text \<open>The section parser run on a sequence of callbacks, as \<open>feed\<close> drives it.\<close>

abbreviation section_feed :: "section_parser \<Rightarrow> html_event list \<Rightarrow> error + section_parser" where
  "section_feed \<equiv> feed section_handle_starttag section_handle_data"

text \<open>
  Whether, while the callbacks \<open>es\<close> run from the state \<open>s\<close>, a text datum that parses as an
  integer arrives in the crn field state.
\<close>

fun valid_crn_appears :: "section_parser \<Rightarrow> html_event list \<Rightarrow> bool" where
  "valid_crn_appears s [] = False"
| "valid_crn_appears s (StartTag tag attrs # es) =
     (case section_handle_starttag s tag attrs of
        Inl e \<Rightarrow> False
      | Inr s' \<Rightarrow> valid_crn_appears s' es)"
| "valid_crn_appears s (EndTag tag # es) = valid_crn_appears s es"
| "valid_crn_appears s (Data d # es) =
     (if property_to_write s = Some ''ws-crn'' \<and> py_int d \<noteq> None then True
      else (case section_handle_data s d of
              Inl e \<Rightarrow> False
            | Inr s' \<Rightarrow> valid_crn_appears s' es))"

text \<open>\<open>self.section_list[subject][course]\<close> when both keys are present.\<close>

definition cached_sections :: "fetcher \<Rightarrow> string \<Rightarrow> course_no \<Rightarrow> sections option" where
  "cached_sections f subject course =
     (case map_of (section_list f) subject of
        None \<Rightarrow> None
      | Some by_course \<Rightarrow> map_of by_course course)"

text \<open>\<open>self.section_list[subject]\<close>, or the empty dictionary when the key is absent.\<close>

definition by_course_of :: "fetcher \<Rightarrow> string \<Rightarrow> courses" where
  "by_course_of f s = (case map_of (section_list f) s of None \<Rightarrow> [] | Some bc \<Rightarrow> bc)"

text \<open>The URL \<open>fetch_section_list\<close> requests.\<close>

definition section_url :: "fetcher \<Rightarrow> string \<Rightarrow> course_no \<Rightarrow> string" where
  "section_url f subject course =
     urls_root f @ upper subject @ ''/'' @ str_course_no course @ ''.html''"

section \<open>Sample resources\<close>

text \<open>
  The callbacks of three small pages: a section list with one section, a course list with
  one course, and a portal with one subject.
\<close>

definition section_page :: "html_event list" where
  "section_page =
     [StartTag ''td'' [(''headers'', Some ''ws-crn''), (''class'', Some ''ws-row'')],
      Data ''31260'', EndTag ''td'',
      StartTag ''td'' [(''headers'', Some ''ws-type''), (''class'', Some ''ws-row'')],
      Data ''LEC'', EndTag ''td'']"

definition course_page :: "html_event list" where
  "course_page =
     [StartTag ''div'' [(''class'', Some ''ws-course-number'')], Data ''CS 493'', EndTag ''div'']"

definition portal_page :: "html_event list" where
  "portal_page =
     [StartTag ''div'' [(''class'', Some ''ws-course-number'')], Data ''ECE'', EndTag ''div'']"

section \<open>The constructor\<close>

lemma term_rejected_always: "term_rejected t"
  by (auto simp: term_rejected_def split: option.splits)

lemma str_int_2011: "str_int 2011 = ''2011''"
  by code_simp

text \<open>
  C1. Whatever term is passed to the constructor, the validity test rejects it, and the
  root and portal URLs carry the term of the current month (before May spring, before
  August summer, otherwise fall): the instance is the one built with no term at all.
\<close>

theorem init_term_always_inferred:
  "term_rejected (map_option lower (Some t)) \<and>
   fetcher_init ty tm y (Some t) = fetcher_init ty tm y None \<and>
   urls_root (fetcher_init ty tm y (Some t)) =
     ''http://courses.illinois.edu/cis/'' @ str_int (case y of None \<Rightarrow> ty | Some v \<Rightarrow> v) @ ''/'' @
     (if tm < 5 then ''spring'' else if tm < 8 then ''summer'' else ''fall'') @ ''/schedule/'' \<and>
   urls_portal (fetcher_init ty tm y (Some t)) =
     ''http://courses.illinois.edu/cis/'' @ str_int (case y of None \<Rightarrow> ty | Some v \<Rightarrow> v) @ ''/'' @
     (if tm < 5 then ''spring'' else if tm < 8 then ''summer'' else ''fall'') @
     ''/schedule/index.html''"
  by (simp add: fetcher_init_def term_rejected_always flush_def term_of_month_def Let_def)

theorem init_term_always_inferred_witness:
  "urls_root (fetcher_init 2026 11 (Some 2011) (Some ''Fall'')) =
     ''http://courses.illinois.edu/cis/2011/fall/schedule/'' \<and>
   urls_portal (fetcher_init 2026 3 (Some 2011) (Some ''Fall'')) =
     ''http://courses.illinois.edu/cis/2011/spring/schedule/index.html''"
  using init_term_always_inferred [of "''Fall''" 2026 11 "Some 2011", THEN conjunct2, THEN conjunct2]
        init_term_always_inferred [of "''Fall''" 2026 3 "Some 2011", THEN conjunct2, THEN conjunct2]
  by (simp add: str_int_2011)

text \<open>
  The instance built in March 2011 with no argument.
\<close>

lemma fetcher_2011:
  "fetcher_init 2011 3 None None =
     \<lparr>urls_root = ''http://courses.illinois.edu/cis/2011/spring/schedule/'',
      urls_portal = ''http://courses.illinois.edu/cis/2011/spring/schedule/index.html'',
      subject_list = None, course_list = [], section_list = [], requests = []\<rparr>"
  by (simp add: fetcher_init_def term_rejected_always term_of_month_def flush_def str_int_2011)

section \<open>Evaluation on the sample resources\<close>

lemma lower_td: "lower ''td'' = ''td''"
  by (simp add: lower_def lower_char_def)

lemma lower_br: "lower ''br'' = ''br''"
  by (simp add: lower_def lower_char_def)

lemma lower_div: "lower ''div'' = ''div''"
  by (simp add: lower_def lower_char_def)

lemma upper_CS: "upper ''CS'' = ''CS''" "upper ''cs'' = ''CS''" "upper ''ECE'' = ''ECE''"
  by (simp_all add: upper_def upper_char_def)

lemma str_int_493: "str_int 493 = ''493''"
  by code_simp

lemma strip_ws_row: "strip '' ws-row'' = ''ws-row''"
  by (simp add: strip_def isspace_def)

lemma strip_plain: "strip ''ws-row'' = ''ws-row''" "strip ''LEC'' = ''LEC''"
  by (simp_all add: strip_def isspace_def)

lemma py_int_31260: "py_int ''31260'' = Some 31260"
  by (simp add: py_int_def strip_def isspace_def digit_val_def)

lemma py_int_TBA: "py_int ''TBA'' = None"
  by (simp add: py_int_def strip_def isspace_def digit_val_def)

lemma parse_section_page:
  "UIUCSectionListParser section_page = Inr [(31260, [(''type'', ''LEC'')])]"
  by (simp add: UIUCSectionListParser_def section_page_def section_parser_init_def
      section_handle_starttag_def section_handle_data_def lower_td attrs_get_def headers_def
      strip_plain py_int_31260 isspace_def)

lemma parse_course_page: "UIUCCourseListParser course_page = Inr [''493'']"
  by (simp add: UIUCCourseListParser_def course_page_def course_parser_init_def
      course_handle_starttag_def course_handle_data_def lower_div attrs_get_def getitem_def)

lemma parse_portal_page: "UIUCSubjectListParser portal_page = Inr [''ECE'']"
  by (simp add: UIUCSubjectListParser_def portal_page_def subject_parser_init_def
      subject_handle_starttag_def subject_handle_data_def lower_div attrs_get_def)

lemma parse_nothing:
  "UIUCSectionListParser [] = Inr []" "UIUCCourseListParser [] = Inr []"
  by (simp_all add: UIUCSectionListParser_def UIUCCourseListParser_def section_parser_init_def
      course_parser_init_def)

section \<open>Start tags of the section parser\<close>

lemma starttag_raises:
  "lower tag = ''td'' \<Longrightarrow> attrs_get attrs ''headers'' = Some h \<Longrightarrow> h \<in> set headers \<Longrightarrow>
   attrs_get attrs ''class'' = None \<Longrightarrow> section_handle_starttag s tag attrs = Inl AttributeError"
  by (simp add: section_handle_starttag_def)

text \<open>
  The only start tags on which \<open>handle_starttag\<close> raises: a \<open>td\<close> tag with a header of the
  list and no value for the class attribute.
\<close>

lemma starttag_raises_iff:
  "(\<exists>e. section_handle_starttag s tag attrs = Inl e) \<longleftrightarrow>
   (\<not> (lower tag = ''br'' \<and> property_to_write s = Some ''ws-location'') \<and> lower tag = ''td'' \<and>
    (\<exists>h. attrs_get attrs ''headers'' = Some h \<and> h \<in> set headers) \<and>
    attrs_get attrs ''class'' = None)"
  by (auto simp: section_handle_starttag_def split: if_splits option.splits)

lemma starttag_error: "section_handle_starttag s tag attrs = Inl e \<Longrightarrow> e = AttributeError"
  by (auto simp: section_handle_starttag_def split: if_splits option.splits)

text \<open>
  A start tag never touches the records or the current CRN.
\<close>

lemma starttag_frame:
  "section_handle_starttag s tag attrs = Inr s' \<Longrightarrow>
   sections s' = sections s \<and> current_crn s' = current_crn s"
  by (auto simp: section_handle_starttag_def split: if_splits option.splits)

text \<open>
  A line break in the location state returns at once: the whole state is unchanged.
\<close>

lemma br_in_location_noop:
  "lower tag = ''br'' \<Longrightarrow> property_to_write s = Some ''ws-location'' \<Longrightarrow>
   section_handle_starttag s tag attrs = Inr s"
  by (simp add: section_handle_starttag_def)

text \<open>
  Every other start tag that is not a data cell of a listed header, when the call
  returns, clears the active field and nothing else.
\<close>

lemma other_tag_clears:
  "section_handle_starttag s tag attrs = Inr s' \<Longrightarrow>
   \<not> (lower tag = ''br'' \<and> property_to_write s = Some ''ws-location'') \<Longrightarrow>
   \<not> (lower tag = ''td'' \<and>
      (\<exists>h c. attrs_get attrs ''headers'' = Some h \<and> h \<in> set headers \<and>
             attrs_get attrs ''class'' = Some c \<and> strip c = ''ws-row'')) \<Longrightarrow>
   s' = s\<lparr>property_to_write := None\<rparr>"
  by (auto simp: section_handle_starttag_def split: if_splits option.splits)

text \<open>
  C2. The claim: a start tag with a missing attribute is a tag that does not match, and
  \<open>handle_starttag\<close> does not raise. On a \<open>td\<close> tag with \<open>headers="ws-crn"\<close> and no class
  attribute, \<open>handle_starttag\<close> raises AttributeError, and so does the whole parse.
\<close>

theorem starttag_without_class_raises:
  "section_handle_starttag section_parser_init ''td'' [(''headers'', Some ''ws-crn'')] =
     Inl AttributeError \<and>
   UIUCSectionListParser [StartTag ''td'' [(''headers'', Some ''ws-crn'')]] = Inl AttributeError"
  by (simp add: UIUCSectionListParser_def section_handle_starttag_def lower_td attrs_get_def
        headers_def)

text \<open>
  C8. The claim: a start tag that is not recognised, other than the line break in the
  location state, clears the active field. A \<open>td\<close> tag with a header of the list and no
  class attribute is not recognised, and on it \<open>handle_starttag\<close> raises AttributeError
  with the active field still set; the parse stops there.
\<close>

theorem starttag_without_class_keeps_field:
  "section_handle_starttag
     \<lparr>sections = [], current_crn = None, property_to_write = Some ''ws-type''\<rparr>
     ''td'' [(''headers'', Some ''ws-crn'')] = Inl AttributeError \<and>
   section_feed
     \<lparr>sections = [], current_crn = None, property_to_write = Some ''ws-type''\<rparr>
     [StartTag ''td'' [(''headers'', Some ''ws-crn'')], Data ''31260''] = Inl AttributeError"
  by (simp add: section_handle_starttag_def lower_td attrs_get_def headers_def)

section \<open>Text of the course list parser\<close>

lemma split_not_Nil: "split d sep \<noteq> []"
  by (induction d) (auto split: list.splits)

lemma split_unfold:
  "split d sep = takeWhile (\<lambda>c. c \<noteq> sep) d #
     (if sep \<in> set d then split (tl (dropWhile (\<lambda>c. c \<noteq> sep) d)) sep else [])"
  by (induction d) (auto split: list.splits simp: split_not_Nil)

lemma getitem_split_1:
  "getitem (split d sep) (Suc 0) =
     (if sep \<in> set d then Inr (takeWhile (\<lambda>c. c \<noteq> sep) (tl (dropWhile (\<lambda>c. c \<noteq> sep) d)))
      else Inl IndexError)"
proof (cases "sep \<in> set d")
  case True
  let ?r = "tl (dropWhile (\<lambda>c. c \<noteq> sep) d)"
  have "split d sep = takeWhile (\<lambda>c. c \<noteq> sep) d # split ?r sep"
    using True split_unfold [of d sep] by simp
  moreover have "split ?r sep = takeWhile (\<lambda>c. c \<noteq> sep) ?r #
      (if sep \<in> set ?r then split (tl (dropWhile (\<lambda>c. c \<noteq> sep) ?r)) sep else [])"
    by (rule split_unfold)
  ultimately show ?thesis using True by (simp add: getitem_def)
next
  case False
  then show ?thesis using split_unfold [of d sep] by (simp add: getitem_def)
qed

text \<open>
  C3, as the claim states it, fails: with the marker set, the one-token label \<open>CS\<close> raises
  IndexError instead of being skipped, and on \<open>CS  101\<close> (two spaces) the empty string
  between the spaces is appended, not the second token \<open>101\<close>.
\<close>

theorem course_handle_data_counterexample:
  "course_handle_data \<lparr>cp_course_no = [], cp_ready = True\<rparr> ''CS'' = Inl IndexError \<and>
   course_handle_data \<lparr>cp_course_no = [], cp_ready = True\<rparr> ''CS  101'' =
     Inr \<lparr>cp_course_no = [[]], cp_ready = True\<rparr>"
  by (simp add: course_handle_data_def getitem_def)

text \<open>
  C3, amended. For every text datum received while the marker is set: when the datum has
  no space character, IndexError is raised and nothing is appended; otherwise the text
  between its first space and its next space (or its end) is appended to the course list.
\<close>

theorem course_handle_data_second_piece:
  "cp_ready s \<Longrightarrow>
   course_handle_data s d =
     (if CHR '' '' \<in> set d
      then Inr (s\<lparr>cp_course_no := cp_course_no s @
              [takeWhile (\<lambda>c. c \<noteq> CHR '' '') (tl (dropWhile (\<lambda>c. c \<noteq> CHR '' '') d))]\<rparr>)
      else Inl IndexError)"
  by (simp add: course_handle_data_def getitem_split_1)

theorem course_handle_data_second_piece_witness:
  "cp_ready \<lparr>cp_course_no = [''101''], cp_ready = True\<rparr> \<and>
   course_handle_data \<lparr>cp_course_no = [''101''], cp_ready = True\<rparr> ''CS 225 extra'' =
     Inr \<lparr>cp_course_no = [''101'', ''225''], cp_ready = True\<rparr> \<and>
   course_handle_data \<lparr>cp_course_no = [''101''], cp_ready = True\<rparr> ''CS225'' = Inl IndexError"
  using course_handle_data_second_piece
          [of "\<lparr>cp_course_no = [''101''], cp_ready = True\<rparr>" "''CS 225 extra''"]
        course_handle_data_second_piece
          [of "\<lparr>cp_course_no = [''101''], cp_ready = True\<rparr>" "''CS225''"]
  by simp

section \<open>Text of the section parser\<close>

lemma data_without_crn:
  "current_crn s = None \<Longrightarrow> \<not> (property_to_write s = Some ''ws-crn'' \<and> py_int d \<noteq> None) \<Longrightarrow>
   section_handle_data s d = Inr s' \<Longrightarrow> sections s' = sections s \<and> current_crn s' = None"
  by (auto simp: section_handle_data_def split: if_splits option.splits)

text \<open>
  With no current CRN, and as long as no text that parses arrives in the crn state,
  the records stay as they are.
\<close>

lemma dropped_until_crn:
  "current_crn s = None \<Longrightarrow> \<not> valid_crn_appears s es \<Longrightarrow> section_feed s es = Inr s' \<Longrightarrow>
   sections s' = sections s \<and> current_crn s' = None"
proof (induction es arbitrary: s)
  case Nil
  then show ?case by simp
next
  case (Cons e es)
  show ?case
  proof (cases e)
    case (StartTag tag attrs)
    with Cons.prems obtain s1 where s1: "section_handle_starttag s tag attrs = Inr s1"
      and rest: "section_feed s1 es = Inr s'" and nv: "\<not> valid_crn_appears s1 es"
      by (auto split: sum.splits)
    from starttag_frame [OF s1] Cons.prems(1) have "sections s1 = sections s" "current_crn s1 = None"
      by simp_all
    with Cons.IH [OF _ nv rest] show ?thesis by simp
  next
    case (EndTag tag)
    with Cons show ?thesis by simp
  next
    case (Data d)
    with Cons.prems obtain s1 where s1: "section_handle_data s d = Inr s1"
      and rest: "section_feed s1 es = Inr s'" and nv: "\<not> valid_crn_appears s1 es"
      and nc: "\<not> (property_to_write s = Some ''ws-crn'' \<and> py_int d \<noteq> None)"
      by (auto split: sum.splits if_splits)
    from data_without_crn [OF Cons.prems(1) nc s1] have "sections s1 = sections s" "current_crn s1 = None"
      by simp_all
    with Cons.IH [OF _ nv rest] show ?thesis by simp
  qed
qed

text \<open>
  C5. A text datum received in the crn field state: when it parses as an integer, that
  integer becomes the current CRN and an empty record is stored under it, replacing any
  record it had, the other records untouched; when it does not parse, the current CRN
  is cleared and no record is created, and from then on the records stay as they are
  (every text is dropped) for as long as no text that parses arrives in the crn state.
\<close>

theorem crn_datum:
  "property_to_write s = Some ''ws-crn'' \<Longrightarrow>
   (\<forall>n. py_int d = Some n \<longrightarrow>
      section_handle_data s d =
        Inr (s\<lparr>current_crn := Some n, sections := AList.update n [] (sections s)\<rparr>) \<and>
      map_of (AList.update n [] (sections s)) n = Some [] \<and>
      (\<forall>m. m \<noteq> n \<longrightarrow> map_of (AList.update n [] (sections s)) m = map_of (sections s) m)) \<and>
   (py_int d = None \<longrightarrow>
      section_handle_data s d = Inr (s\<lparr>current_crn := None\<rparr>) \<and>
      (\<forall>es s'. \<not> valid_crn_appears (s\<lparr>current_crn := None\<rparr>) es \<longrightarrow>
         section_feed (s\<lparr>current_crn := None\<rparr>) es = Inr s' \<longrightarrow>
         sections s' = sections s \<and> current_crn s' = None))"
proof (intro conjI allI impI)
  fix n assume "property_to_write s = Some ''ws-crn''" "py_int d = Some n"
  then show "section_handle_data s d =
        Inr (s\<lparr>current_crn := Some n, sections := AList.update n [] (sections s)\<rparr>)"
    by (simp add: section_handle_data_def)
next
  fix n show "map_of (AList.update n [] (sections s)) n = Some []"
    by (simp add: update_conv')
next
  fix n m :: int assume "m \<noteq> n"
  then show "map_of (AList.update n [] (sections s)) m = map_of (sections s) m"
    by (simp add: update_conv')
next
  assume "property_to_write s = Some ''ws-crn''" "py_int d = None"
  then show "section_handle_data s d = Inr (s\<lparr>current_crn := None\<rparr>)"
    by (simp add: section_handle_data_def)
next
  fix es s'
  assume "\<not> valid_crn_appears (s\<lparr>current_crn := None\<rparr>) es"
    "section_feed (s\<lparr>current_crn := None\<rparr>) es = Inr s'"
  with dropped_until_crn [of "s\<lparr>current_crn := None\<rparr>" es s']
  show "sections s' = sections s" "current_crn s' = None" by simp_all
qed

theorem crn_datum_witness:
  "section_handle_data
     \<lparr>sections = [(5, [(''type'', ''LEC'')])], current_crn = Some 5,
      property_to_write = Some ''ws-crn''\<rparr> ''31260'' =
     Inr \<lparr>sections = [(5, [(''type'', ''LEC'')]), (31260, [])], current_crn = Some 31260,
          property_to_write = Some ''ws-crn''\<rparr> \<and>
   section_handle_data
     \<lparr>sections = [(5, [(''type'', ''LEC'')])], current_crn = Some 5,
      property_to_write = Some ''ws-crn''\<rparr> ''TBA'' =
     Inr \<lparr>sections = [(5, [(''type'', ''LEC'')])], current_crn = None,
          property_to_write = Some ''ws-crn''\<rparr> \<and>
   section_feed
     \<lparr>sections = [(5, [(''type'', ''LEC'')])], current_crn = None,
      property_to_write = Some ''ws-crn''\<rparr>
     [StartTag ''td'' [(''headers'', Some ''ws-type''), (''class'', Some '' ws-row'')], Data ''LAB''] =
     Inr \<lparr>sections = [(5, [(''type'', ''LEC'')])], current_crn = None,
          property_to_write = Some ''ws-type''\<rparr>"
proof -
  let ?s = "\<lparr>sections = [(5, [(''type'', ''LEC'')])], current_crn = Some 5,
             property_to_write = Some ''ws-crn''\<rparr>"
  have p: "property_to_write ?s = Some ''ws-crn''" by simp
  have a: "section_handle_data ?s ''31260'' =
      Inr (?s\<lparr>current_crn := Some 31260, sections := AList.update 31260 [] (sections ?s)\<rparr>)"
    using crn_datum [OF p, of "''31260''"] py_int_31260 by blast
  have b: "section_handle_data ?s ''TBA'' = Inr (?s\<lparr>current_crn := None\<rparr>)"
    using crn_datum [OF p, of "''TBA''"] py_int_TBA by blast
  have c: "section_feed (?s\<lparr>current_crn := None\<rparr>)
     [StartTag ''td'' [(''headers'', Some ''ws-type''), (''class'', Some '' ws-row'')], Data ''LAB''] =
     Inr \<lparr>sections = [(5, [(''type'', ''LEC'')])], current_crn = None,
          property_to_write = Some ''ws-type''\<rparr>"
    by (simp add: section_handle_starttag_def section_handle_data_def lower_td lower_br
          attrs_get_def headers_def strip_ws_row)
  from a b c show ?thesis by simp
qed

text \<open>
  C9. In a field state other than crn, with a current CRN that has a record: the text,
  stripped and with each run of whitespace turned into one space, is stored under the
  field name (the header without its first three characters) when the record has no
  value there, and is appended to the value after \<open>", "\<close> when it has one. No other
  field of the record changes.
\<close>

theorem field_datum_appends:
  "property_to_write s = Some p \<Longrightarrow> p \<noteq> ''ws-crn'' \<Longrightarrow> current_crn s = Some crn \<Longrightarrow>
   map_of (sections s) crn = Some r \<Longrightarrow>
   (\<exists>r'. section_handle_data s d = Inr (s\<lparr>sections := AList.update crn r' (sections s)\<rparr>) \<and>
      map_of r' (drop 3 p) =
        Some (case map_of r (drop 3 p) of
                None \<Rightarrow> re_cleaner_sub (strip d)
              | Some v \<Rightarrow> v @ '', '' @ re_cleaner_sub (strip d)) \<and>
      (\<forall>k. k \<noteq> drop 3 p \<longrightarrow> map_of r' k = map_of r k))"
proof -
  assume a: "property_to_write s = Some p" "p \<noteq> ''ws-crn''" "current_crn s = Some crn"
    "map_of (sections s) crn = Some r"
  let ?v = "case map_of r (drop 3 p) of
              None \<Rightarrow> re_cleaner_sub (strip d)
            | Some v \<Rightarrow> v @ '', '' @ re_cleaner_sub (strip d)"
  let ?r' = "AList.update (drop 3 p) ?v r"
  have "section_handle_data s d = Inr (s\<lparr>sections := AList.update crn ?r' (sections s)\<rparr>)"
    using a by (cases "map_of r (drop 3 p)") (simp_all add: section_handle_data_def Let_def)
  moreover have "map_of ?r' (drop 3 p) = Some ?v"
    by (simp add: update_conv')
  moreover have "\<forall>k. k \<noteq> drop 3 p \<longrightarrow> map_of ?r' k = map_of r k"
    by (simp add: update_conv')
  ultimately show ?thesis by blast
qed

theorem field_datum_appends_witness:
  "section_handle_data
     \<lparr>sections = [(5, [(''location'', ''room 1105'')])], current_crn = Some 5,
      property_to_write = Some ''ws-location''\<rparr> '' Siebel   Center  '' =
     Inr \<lparr>sections = [(5, [(''location'', ''room 1105, Siebel Center'')])], current_crn = Some 5,
          property_to_write = Some ''ws-location''\<rparr> \<and>
   section_handle_data
     \<lparr>sections = [(5, [])], current_crn = Some 5,
      property_to_write = Some ''ws-location''\<rparr> '' Siebel   Center  '' =
     Inr \<lparr>sections = [(5, [(''location'', ''Siebel Center'')])], current_crn = Some 5,
          property_to_write = Some ''ws-location''\<rparr>"
proof -
  let ?s = "\<lparr>sections = [(5, [(''location'', ''room 1105'')])], current_crn = Some 5,
             property_to_write = Some ''ws-location''\<rparr>"
  let ?t = "\<lparr>sections = [(5, [])], current_crn = Some 5,
             property_to_write = Some ''ws-location''\<rparr>"
  let ?d = "'' Siebel   Center  ''"
  have clean: "re_cleaner_sub (strip ?d) = ''Siebel Center''"
    by (simp add: strip_def isspace_def)
  from field_datum_appends [of ?s "''ws-location''" 5 "[(''location'', ''room 1105'')]" ?d]
  obtain r' where "section_handle_data ?s ?d = Inr (?s\<lparr>sections := AList.update 5 r' (sections ?s)\<rparr>)"
    and "map_of r' ''location'' = Some ''room 1105, Siebel Center''"
    and "\<forall>k. k \<noteq> ''location'' \<longrightarrow> map_of r' k = map_of [(''location'', ''room 1105'')] k"
    by (auto simp: clean)
  moreover
  from field_datum_appends [of ?t "''ws-location''" 5 "[]" ?d]
  obtain r'' where "section_handle_data ?t ?d = Inr (?t\<lparr>sections := AList.update 5 r'' (sections ?t)\<rparr>)"
    and "map_of r'' ''location'' = Some ''Siebel Center''"
    by (auto simp: clean)
  ultimately show ?thesis
    by (simp add: section_handle_data_def clean)
qed

text \<open>
  Text, a line break and more text in the location state: one location value, the two
  texts joined by \<open>", "\<close>.
\<close>

lemma location_joined:
  assumes "property_to_write s = Some ''ws-location''" "current_crn s = Some crn"
    "map_of (sections s) crn = Some r" "map_of r ''location'' = None" "lower tag = ''br''"
  shows "\<exists>s' r'. section_feed s [Data a, StartTag tag attrs, Data b] = Inr s' \<and>
      map_of (sections s') crn = Some r' \<and>
      map_of r' ''location'' = Some (re_cleaner_sub (strip a) @ '', '' @ re_cleaner_sub (strip b)) \<and>
      property_to_write s' = Some ''ws-location'' \<and> current_crn s' = Some crn"
  using assms
  by (simp add: section_handle_data_def section_handle_starttag_def Let_def update_conv')

text \<open>
  In every state the parser reaches the current CRN has a record, so the KeyError and
  ValueError branches of \<open>handle_data\<close> are never taken: a parse raises AttributeError
  or nothing.
\<close>

lemma crn_has_record_step_data:
  "(\<forall>n. current_crn s = Some n \<longrightarrow> map_of (sections s) n \<noteq> None) \<Longrightarrow>
   section_handle_data s d = Inr s' \<Longrightarrow>
   (\<forall>n. current_crn s' = Some n \<longrightarrow> map_of (sections s') n \<noteq> None)"
  by (auto simp: section_handle_data_def Let_def update_conv' split: if_splits option.splits)

lemma crn_has_record:
  "(\<forall>n. current_crn s = Some n \<longrightarrow> map_of (sections s) n \<noteq> None) \<Longrightarrow>
   section_feed s es = Inr s' \<Longrightarrow>
   (\<forall>n. current_crn s' = Some n \<longrightarrow> map_of (sections s') n \<noteq> None)"
proof (induction es arbitrary: s)
  case Nil
  then show ?case by simp
next
  case (Cons e es)
  show ?case
  proof (cases e)
    case (StartTag tag attrs)
    with Cons.prems obtain s1 where s1: "section_handle_starttag s tag attrs = Inr s1"
      and rest: "section_feed s1 es = Inr s'"
      by (auto split: sum.splits)
    from starttag_frame [OF s1] Cons.prems(1)
    have "\<forall>n. current_crn s1 = Some n \<longrightarrow> map_of (sections s1) n \<noteq> None" by simp
    from Cons.IH [OF this rest] show ?thesis .
  next
    case (EndTag tag)
    with Cons show ?thesis by simp
  next
    case (Data d)
    with Cons.prems obtain s1 where s1: "section_handle_data s d = Inr s1"
      and rest: "section_feed s1 es = Inr s'"
      by (auto split: sum.splits)
    from Cons.IH [OF crn_has_record_step_data [OF Cons.prems(1) s1] rest] show ?thesis .
  qed
qed

lemma data_error:
  "(\<forall>n. current_crn s = Some n \<longrightarrow> map_of (sections s) n \<noteq> None) \<Longrightarrow>
   section_handle_data s d \<noteq> Inl e"
  by (auto simp: section_handle_data_def Let_def split: if_splits option.splits)

lemma section_feed_error:
  "(\<forall>n. current_crn s = Some n \<longrightarrow> map_of (sections s) n \<noteq> None) \<Longrightarrow>
   section_feed s es = Inl e \<Longrightarrow> e = AttributeError"
proof (induction es arbitrary: s)
  case Nil
  then show ?case by simp
next
  case (Cons x es)
  show ?case
  proof (cases x)
    case (StartTag tag attrs)
    show ?thesis
    proof (cases "section_handle_starttag s tag attrs")
      case (Inl e')
      with StartTag Cons.prems(2) starttag_error [OF Inl] show ?thesis by simp
    next
      case (Inr s1)
      from starttag_frame [OF Inr] Cons.prems(1)
      have "\<forall>n. current_crn s1 = Some n \<longrightarrow> map_of (sections s1) n \<noteq> None" by simp
      moreover from StartTag Inr Cons.prems(2) have "section_feed s1 es = Inl e" by simp
      ultimately show ?thesis by (rule Cons.IH)
    qed
  next
    case (EndTag tag)
    with Cons show ?thesis by simp
  next
    case (Data d)
    show ?thesis
    proof (cases "section_handle_data s d")
      case (Inl e')
      with data_error [OF Cons.prems(1)] show ?thesis by blast
    next
      case (Inr s1)
      from crn_has_record_step_data [OF Cons.prems(1) Inr]
      have "\<forall>n. current_crn s1 = Some n \<longrightarrow> map_of (sections s1) n \<noteq> None" .
      moreover from Data Inr Cons.prems(2) have "section_feed s1 es = Inl e" by simp
      ultimately show ?thesis by (rule Cons.IH)
    qed
  qed
qed

lemma section_parser_raises_only_AttributeError:
  "UIUCSectionListParser es = Inl e \<Longrightarrow> e = AttributeError"
  using section_feed_error [of section_parser_init es e]
  by (auto simp: UIUCSectionListParser_def section_parser_init_def split: sum.splits)

section \<open>The caches of the fetcher\<close>

lemma truthy_iff: "truthy v \<longleftrightarrow> (\<exists>x xs. v = Some (x # xs))"
  by (auto simp: truthy_def split: option.splits list.splits)

lemma truthy_simps [simp]:
  "truthy None = False" "truthy (Some []) = False" "truthy (Some (x # xs)) = True"
  by (simp_all add: truthy_def)

lemma truthy_nonempty: "map_of bc c = Some r \<Longrightarrow> truthy (Some bc)"
  by (cases bc) auto

text \<open>
  \<open>fetch_section_list\<close>, by whether the cache holds a non-empty value for the key.
\<close>

lemma fetch_section_list_cached:
  assumes "truthy (cached_sections f s c)"
  shows "fetch_section_list net f s c = (Inr (the (cached_sections f s c)), f)"
proof -
  from assms obtain bc r where bc: "map_of (section_list f) s = Some bc"
    and r: "map_of bc c = Some r" and t: "truthy (Some r)"
    by (auto simp: cached_sections_def truthy_iff split: option.splits)
  have "truthy (map_of (section_list f) s)"
    using bc truthy_nonempty [OF r] by simp
  then show ?thesis
    using bc r t by (simp add: fetch_section_list_def cached_sections_def)
qed

lemma fetch_section_list_miss:
  assumes "\<not> truthy (cached_sections f s c)"
  shows "fetch_section_list net f s c =
     (case (case net (requests f) (section_url f s c) of
              Inl e \<Rightarrow> Inl e | Inr es \<Rightarrow> UIUCSectionListParser es) of
        Inl e \<Rightarrow>
          (Inl e, f\<lparr>section_list := AList.update s (by_course_of f s) (section_list f),
                    requests := requests f @ [section_url f s c]\<rparr>)
      | Inr r \<Rightarrow>
          (Inr r, f\<lparr>section_list := AList.update s (AList.update c r (by_course_of f s))
                                       (section_list f),
                    requests := requests f @ [section_url f s c]\<rparr>))"
proof (cases "truthy (map_of (section_list f) s)")
  case True
  then obtain bc where bc: "map_of (section_list f) s = Some bc"
    by (auto simp: truthy_iff)
  with assms have nt: "\<not> truthy (map_of bc c)"
    by (simp add: cached_sections_def)
  have triv: "AList.update s bc (section_list f) = section_list f"
    using bc by (rule update_triv)
  show ?thesis
    using True bc nt triv
    by (simp add: fetch_section_list_def parse_url_def section_url_def by_course_of_def Let_def
        split: sum.splits)
next
  case False
  then have e: "by_course_of f s = []"
    by (auto simp: by_course_of_def truthy_def split: option.splits list.splits)
  show ?thesis
    using False
    by (simp add: e fetch_section_list_def parse_url_def section_url_def Let_def update_conv'
        split: sum.splits)
qed

text \<open>
  \<open>fetch_course_list\<close> and \<open>fetch_subject_list\<close>, likewise.
\<close>

lemma fetch_course_list_cached:
  assumes "truthy (map_of (course_list f) s)"
  shows "fetch_course_list net f s = (Inr (the (map_of (course_list f) s)), f)"
  using assms by (auto simp: fetch_course_list_def truthy_iff)

lemma fetch_course_list_miss:
  assumes "\<not> truthy (map_of (course_list f) s)"
  shows "fetch_course_list net f s =
     (case (case net (requests f) (urls_root f @ upper s @ ''/'') of
              Inl e \<Rightarrow> Inl e | Inr es \<Rightarrow> UIUCCourseListParser es) of
        Inl e \<Rightarrow> (Inl e, f\<lparr>requests := requests f @ [urls_root f @ upper s @ ''/'']\<rparr>)
      | Inr r \<Rightarrow>
          (Inr r, f\<lparr>course_list := AList.update s r (course_list f),
                    requests := requests f @ [urls_root f @ upper s @ ''/'']\<rparr>))"
  using assms by (simp add: fetch_course_list_def parse_url_def Let_def split: sum.splits)

lemma fetch_subject_list_cached:
  "subject_list f = Some l \<Longrightarrow> fetch_subject_list net f = (Inr l, f)"
  by (simp add: fetch_subject_list_def)

lemma fetch_subject_list_miss:
  "subject_list f = None \<Longrightarrow>
   fetch_subject_list net f =
     (case (case net (requests f) (urls_portal f) of
              Inl e \<Rightarrow> Inl e | Inr es \<Rightarrow> UIUCSubjectListParser es) of
        Inl e \<Rightarrow> (Inl e, f\<lparr>requests := requests f @ [urls_portal f]\<rparr>)
      | Inr r \<Rightarrow> (Inr r, f\<lparr>subject_list := Some r, requests := requests f @ [urls_portal f]\<rparr>))"
  by (simp add: fetch_subject_list_def parse_url_def Let_def split: sum.splits)

lemma map_of_by_course_of: "map_of (by_course_of f s) c = cached_sections f s c"
  by (simp add: by_course_of_def cached_sections_def split: option.splits)

lemma cached_sections_update:
  "cached_sections (f\<lparr>section_list := AList.update s X (section_list f), requests := R\<rparr>) s' c' =
     (if s' = s then map_of X c' else cached_sections f s' c')"
  by (simp add: cached_sections_def update_conv')

text \<open>
  What a call leaves unchanged, and what it stores.
\<close>

lemma fetch_section_list_effect:
  assumes "fetch_section_list net f s c = (r, f')"
  shows "urls_root f' = urls_root f" and "urls_portal f' = urls_portal f"
    and "course_list f' = course_list f" and "subject_list f' = subject_list f"
    and "s' \<noteq> s \<Longrightarrow> cached_sections f' s' c' = cached_sections f s' c'"
    and "c' \<noteq> c \<Longrightarrow> cached_sections f' s c' = cached_sections f s c'"
    and "r = Inr x \<Longrightarrow> cached_sections f' s c = Some x"
proof -
  have "urls_root f' = urls_root f \<and> urls_portal f' = urls_portal f \<and>
    course_list f' = course_list f \<and> subject_list f' = subject_list f \<and>
    (s' \<noteq> s \<longrightarrow> cached_sections f' s' c' = cached_sections f s' c') \<and>
    (c' \<noteq> c \<longrightarrow> cached_sections f' s c' = cached_sections f s c') \<and>
    (r = Inr x \<longrightarrow> cached_sections f' s c = Some x)"
  proof (cases "truthy (cached_sections f s c)")
    case True
    with assms fetch_section_list_cached [OF True, of net] show ?thesis
      by (auto simp: truthy_iff)
  next
    case False
    with assms fetch_section_list_miss [OF False, of net] show ?thesis
      by (auto simp: cached_sections_update map_of_by_course_of update_conv' split: sum.splits)
  qed
  then show "urls_root f' = urls_root f" and "urls_portal f' = urls_portal f"
    and "course_list f' = course_list f" and "subject_list f' = subject_list f"
    and "s' \<noteq> s \<Longrightarrow> cached_sections f' s' c' = cached_sections f s' c'"
    and "c' \<noteq> c \<Longrightarrow> cached_sections f' s c' = cached_sections f s c'"
    and "r = Inr x \<Longrightarrow> cached_sections f' s c = Some x"
    by simp_all
qed

lemma fetch_section_list_miss_requests:
  assumes "\<not> truthy (cached_sections f s c)" "fetch_section_list net f s c = (r, f')"
  shows "requests f' = requests f @ [section_url f s c]"
  using assms fetch_section_list_miss [OF assms(1), of net] by (auto split: sum.splits)

lemma fetch_course_list_effect:
  assumes "fetch_course_list net f s = (r, f')"
  shows "urls_root f' = urls_root f" and "urls_portal f' = urls_portal f"
    and "section_list f' = section_list f" and "subject_list f' = subject_list f"
    and "s' \<noteq> s \<Longrightarrow> map_of (course_list f') s' = map_of (course_list f) s'"
    and "r = Inr x \<Longrightarrow> map_of (course_list f') s = Some x"
proof -
  have "urls_root f' = urls_root f \<and> urls_portal f' = urls_portal f \<and>
    section_list f' = section_list f \<and> subject_list f' = subject_list f \<and>
    (s' \<noteq> s \<longrightarrow> map_of (course_list f') s' = map_of (course_list f) s') \<and>
    (r = Inr x \<longrightarrow> map_of (course_list f') s = Some x)"
  proof (cases "truthy (map_of (course_list f) s)")
    case True
    with assms fetch_course_list_cached [OF True, of net] show ?thesis
      by (auto simp: truthy_iff)
  next
    case False
    with assms fetch_course_list_miss [OF False, of net] show ?thesis
      by (auto simp: update_conv' split: sum.splits)
  qed
  then show "urls_root f' = urls_root f" and "urls_portal f' = urls_portal f"
    and "section_list f' = section_list f" and "subject_list f' = subject_list f"
    and "s' \<noteq> s \<Longrightarrow> map_of (course_list f') s' = map_of (course_list f) s'"
    and "r = Inr x \<Longrightarrow> map_of (course_list f') s = Some x"
    by simp_all
qed

lemma fetch_course_list_miss_requests:
  assumes "\<not> truthy (map_of (course_list f) s)" "fetch_course_list net f s = (r, f')"
  shows "requests f' = requests f @ [urls_root f @ upper s @ ''/'']"
  using assms fetch_course_list_miss [OF assms(1), of net] by (auto split: sum.splits)

text \<open>
  A non-empty result (for the subject list: any result) is served from the cache by the
  next call, whatever the network would answer, and after \<open>flush()\<close> every fetch method
  makes a request.
\<close>

lemma second_call_course_list:
  assumes "fetch_course_list net f s = (Inr (x # xs), f1)"
  shows "fetch_course_list net' f1 s = (Inr (x # xs), f1)"
proof -
  from fetch_course_list_effect(6) [OF assms] have "map_of (course_list f1) s = Some (x # xs)"
    by simp
  then show ?thesis
    using fetch_course_list_cached [of f1 s net'] by simp
qed

lemma second_call_section_list:
  assumes "fetch_section_list net f s c = (Inr (x # xs), f1)"
  shows "fetch_section_list net' f1 s c = (Inr (x # xs), f1)"
proof -
  from fetch_section_list_effect(7) [OF assms] have "cached_sections f1 s c = Some (x # xs)"
    by simp
  then show ?thesis
    using fetch_section_list_cached [of f1 s c net'] by simp
qed

lemma second_call_subject_list:
  assumes "fetch_subject_list net f = (Inr l, f1)"
  shows "fetch_subject_list net' f1 = (Inr l, f1)"
proof (cases "subject_list f")
  case None
  with assms fetch_subject_list_miss [OF None, of net] have "subject_list f1 = Some l"
    by (auto split: sum.splits)
  then show ?thesis by (rule fetch_subject_list_cached)
next
  case (Some l')
  with assms fetch_subject_list_cached [OF Some, of net] have "subject_list f1 = Some l"
    by simp
  then show ?thesis by (rule fetch_subject_list_cached)
qed

lemma flush_then_fetch:
  "requests (snd (fetch_subject_list net (flush f))) = requests f @ [urls_portal f]"
  "requests (snd (fetch_course_list net (flush f) s)) = requests f @ [urls_root f @ upper s @ ''/'']"
  "requests (snd (fetch_section_list net (flush f) s c)) = requests f @ [section_url f s c]"
proof -
  show "requests (snd (fetch_subject_list net (flush f))) = requests f @ [urls_portal f]"
    using fetch_subject_list_miss [of "flush f" net]
    by (auto simp: flush_def split: sum.splits)
  have "\<not> truthy (map_of (course_list (flush f)) s)" by (simp add: flush_def)
  from fetch_course_list_miss [OF this, of net]
  show "requests (snd (fetch_course_list net (flush f) s)) = requests f @ [urls_root f @ upper s @ ''/'']"
    by (auto simp: flush_def split: sum.splits)
  have "\<not> truthy (cached_sections (flush f) s c)" by (simp add: flush_def cached_sections_def)
  from fetch_section_list_miss [OF this, of net]
  show "requests (snd (fetch_section_list net (flush f) s c)) = requests f @ [section_url f s c]"
    by (auto simp: flush_def section_url_def split: sum.splits)
qed

text \<open>
  C4. The claim: two calls of a fetch method with the same key make one request. A course
  list or a section list that parses to an empty result is requested again by the next
  call: on resources with no markup, two calls of \<open>fetch_course_list('CS')\<close> request the
  URL twice, and so do two calls of \<open>fetch_section_list('CS', 493)\<close>.
\<close>

theorem empty_result_fetched_again:
  "requests (snd (fetch_course_list (\<lambda>log url. Inr [])
      (snd (fetch_course_list (\<lambda>log url. Inr []) (fetcher_init 2011 3 None None) ''CS'')) ''CS'')) =
     [''http://courses.illinois.edu/cis/2011/spring/schedule/CS/'',
      ''http://courses.illinois.edu/cis/2011/spring/schedule/CS/''] \<and>
   requests (snd (fetch_section_list (\<lambda>log url. Inr [])
      (snd (fetch_section_list (\<lambda>log url. Inr []) (fetcher_init 2011 3 None None) ''CS'' (IntNo 493)))
      ''CS'' (IntNo 493))) =
     [''http://courses.illinois.edu/cis/2011/spring/schedule/CS/493.html'',
      ''http://courses.illinois.edu/cis/2011/spring/schedule/CS/493.html'']"
  by (simp add: fetcher_2011 fetch_course_list_def fetch_section_list_def parse_url_def
      parse_nothing upper_CS str_int_493 Let_def)

text \<open>
  The result of a call that finds no non-empty cache entry is what the request and the
  parse give.
\<close>

lemma fetch_course_list_miss_result:
  assumes "\<not> truthy (map_of (course_list f) s)" "fetch_course_list net f s = (r, f')"
  shows "r = (case net (requests f) (urls_root f @ upper s @ ''/'') of
                Inl e \<Rightarrow> Inl e | Inr es \<Rightarrow> UIUCCourseListParser es)"
  using assms fetch_course_list_miss [OF assms(1), of net] by (auto split: sum.splits)

lemma fetch_section_list_miss_result:
  assumes "\<not> truthy (cached_sections f s c)" "fetch_section_list net f s c = (r, f')"
  shows "r = (case net (requests f) (section_url f s c) of
                Inl e \<Rightarrow> Inl e | Inr es \<Rightarrow> UIUCSectionListParser es)"
  using assms fetch_section_list_miss [OF assms(1), of net] by (auto split: sum.splits)

text \<open>
  C10. The caches are keyed by the subject as the caller wrote it, the URL carries the
  subject in upper case. Two subjects that differ only in letter case, neither with a
  non-empty cache entry: the two calls of \<open>fetch_course_list\<close> each request the same URL,
  each result is what that request and the parse of its answer give, and each result
  that is returned is stored under the subject of its own call, so that both entries
  are in the cache after the second call. The same for \<open>fetch_section_list\<close> and any
  course number.
\<close>

theorem case_variants_requested_twice:
  assumes "upper s1 = upper s2" and "s1 \<noteq> s2"
  shows
   "(\<not> truthy (map_of (course_list f) s1) \<longrightarrow> \<not> truthy (map_of (course_list f) s2) \<longrightarrow>
      (case fetch_course_list net f s1 of (r1, f1) \<Rightarrow>
         case fetch_course_list net f1 s2 of (r2, f2) \<Rightarrow>
           requests f1 = requests f @ [urls_root f @ upper s1 @ ''/''] \<and>
           requests f2 = requests f @ [urls_root f @ upper s1 @ ''/'', urls_root f @ upper s1 @ ''/''] \<and>
           r1 = (case net (requests f) (urls_root f @ upper s1 @ ''/'') of
                   Inl e \<Rightarrow> Inl e | Inr es \<Rightarrow> UIUCCourseListParser es) \<and>
           r2 = (case net (requests f @ [urls_root f @ upper s1 @ ''/''])
                          (urls_root f @ upper s1 @ ''/'') of
                   Inl e \<Rightarrow> Inl e | Inr es \<Rightarrow> UIUCCourseListParser es) \<and>
           (\<forall>l1. r1 = Inr l1 \<longrightarrow> map_of (course_list f2) s1 = Some l1) \<and>
           (\<forall>l2. r2 = Inr l2 \<longrightarrow> map_of (course_list f2) s2 = Some l2))) \<and>
    (\<not> truthy (cached_sections f s1 c) \<longrightarrow> \<not> truthy (cached_sections f s2 c) \<longrightarrow>
      (case fetch_section_list net f s1 c of (r1, f1) \<Rightarrow>
         case fetch_section_list net f1 s2 c of (r2, f2) \<Rightarrow>
           requests f1 = requests f @
             [urls_root f @ upper s1 @ ''/'' @ str_course_no c @ ''.html''] \<and>
           requests f2 = requests f @
             [urls_root f @ upper s1 @ ''/'' @ str_course_no c @ ''.html'',
              urls_root f @ upper s1 @ ''/'' @ str_course_no c @ ''.html''] \<and>
           r1 = (case net (requests f)
                          (urls_root f @ upper s1 @ ''/'' @ str_course_no c @ ''.html'') of
                   Inl e \<Rightarrow> Inl e | Inr es \<Rightarrow> UIUCSectionListParser es) \<and>
           r2 = (case net (requests f @
                            [urls_root f @ upper s1 @ ''/'' @ str_course_no c @ ''.html''])
                          (urls_root f @ upper s1 @ ''/'' @ str_course_no c @ ''.html'') of
                   Inl e \<Rightarrow> Inl e | Inr es \<Rightarrow> UIUCSectionListParser es) \<and>
           (\<forall>x1. r1 = Inr x1 \<longrightarrow> cached_sections f2 s1 c = Some x1) \<and>
           (\<forall>x2. r2 = Inr x2 \<longrightarrow> cached_sections f2 s2 c = Some x2)))"
proof (intro conjI impI)
  assume n1: "\<not> truthy (map_of (course_list f) s1)" and n2: "\<not> truthy (map_of (course_list f) s2)"
  obtain r1 f1 where c1: "fetch_course_list net f s1 = (r1, f1)" by (cases "fetch_course_list net f s1")
  obtain r2 f2 where c2: "fetch_course_list net f1 s2 = (r2, f2)" by (cases "fetch_course_list net f1 s2")
  have n2': "\<not> truthy (map_of (course_list f1) s2)"
    using fetch_course_list_effect(5) [OF c1, of s2] assms(2) n2 by simp
  have q1: "requests f1 = requests f @ [urls_root f @ upper s1 @ ''/'']"
    by (rule fetch_course_list_miss_requests [OF n1 c1])
  have q2: "requests f2 = requests f1 @ [urls_root f1 @ upper s2 @ ''/'']"
    by (rule fetch_course_list_miss_requests [OF n2' c2])
  have u: "urls_root f1 = urls_root f" by (rule fetch_course_list_effect(1) [OF c1])
  have v1: "r1 = (case net (requests f) (urls_root f @ upper s1 @ ''/'') of
                   Inl e \<Rightarrow> Inl e | Inr es \<Rightarrow> UIUCCourseListParser es)"
    by (rule fetch_course_list_miss_result [OF n1 c1])
  have v2: "r2 = (case net (requests f1) (urls_root f1 @ upper s2 @ ''/'') of
                   Inl e \<Rightarrow> Inl e | Inr es \<Rightarrow> UIUCCourseListParser es)"
    by (rule fetch_course_list_miss_result [OF n2' c2])
  have e1: "\<forall>l1. r1 = Inr l1 \<longrightarrow> map_of (course_list f2) s1 = Some l1"
    using fetch_course_list_effect(6) [OF c1] fetch_course_list_effect(5) [OF c2, of s1] assms(2)
    by auto
  have e2: "\<forall>l2. r2 = Inr l2 \<longrightarrow> map_of (course_list f2) s2 = Some l2"
    using fetch_course_list_effect(6) [OF c2] by auto
  show "case fetch_course_list net f s1 of (r1, f1) \<Rightarrow>
         case fetch_course_list net f1 s2 of (r2, f2) \<Rightarrow>
           requests f1 = requests f @ [urls_root f @ upper s1 @ ''/''] \<and>
           requests f2 = requests f @ [urls_root f @ upper s1 @ ''/'', urls_root f @ upper s1 @ ''/''] \<and>
           r1 = (case net (requests f) (urls_root f @ upper s1 @ ''/'') of
                   Inl e \<Rightarrow> Inl e | Inr es \<Rightarrow> UIUCCourseListParser es) \<and>
           r2 = (case net (requests f @ [urls_root f @ upper s1 @ ''/''])
                          (urls_root f @ upper s1 @ ''/'') of
                   Inl e \<Rightarrow> Inl e | Inr es \<Rightarrow> UIUCCourseListParser es) \<and>
           (\<forall>l1. r1 = Inr l1 \<longrightarrow> map_of (course_list f2) s1 = Some l1) \<and>
           (\<forall>l2. r2 = Inr l2 \<longrightarrow> map_of (course_list f2) s2 = Some l2)"
    unfolding c1 c2 prod.case
    using q1 q2 u v1 v2 e1 e2 assms(1) by simp
next
  assume n1: "\<not> truthy (cached_sections f s1 c)" and n2: "\<not> truthy (cached_sections f s2 c)"
  obtain r1 f1 where c1: "fetch_section_list net f s1 c = (r1, f1)"
    by (cases "fetch_section_list net f s1 c")
  obtain r2 f2 where c2: "fetch_section_list net f1 s2 c = (r2, f2)"
    by (cases "fetch_section_list net f1 s2 c")
  have n2': "\<not> truthy (cached_sections f1 s2 c)"
    using fetch_section_list_effect(5) [OF c1, of s2 c] assms(2) n2 by simp
  have q1: "requests f1 = requests f @ [section_url f s1 c]"
    by (rule fetch_section_list_miss_requests [OF n1 c1])
  have q2: "requests f2 = requests f1 @ [section_url f1 s2 c]"
    by (rule fetch_section_list_miss_requests [OF n2' c2])
  have u: "urls_root f1 = urls_root f" by (rule fetch_section_list_effect(1) [OF c1])
  have v1: "r1 = (case net (requests f) (section_url f s1 c) of
                   Inl e \<Rightarrow> Inl e | Inr es \<Rightarrow> UIUCSectionListParser es)"
    by (rule fetch_section_list_miss_result [OF n1 c1])
  have v2: "r2 = (case net (requests f1) (section_url f1 s2 c) of
                   Inl e \<Rightarrow> Inl e | Inr es \<Rightarrow> UIUCSectionListParser es)"
    by (rule fetch_section_list_miss_result [OF n2' c2])
  have e1: "\<forall>x1. r1 = Inr x1 \<longrightarrow> cached_sections f2 s1 c = Some x1"
    using fetch_section_list_effect(7) [OF c1] fetch_section_list_effect(5) [OF c2, of s1 c] assms(2)
    by auto
  have e2: "\<forall>x2. r2 = Inr x2 \<longrightarrow> cached_sections f2 s2 c = Some x2"
    using fetch_section_list_effect(7) [OF c2] by auto
  show "case fetch_section_list net f s1 c of (r1, f1) \<Rightarrow>
         case fetch_section_list net f1 s2 c of (r2, f2) \<Rightarrow>
           requests f1 = requests f @
             [urls_root f @ upper s1 @ ''/'' @ str_course_no c @ ''.html''] \<and>
           requests f2 = requests f @
             [urls_root f @ upper s1 @ ''/'' @ str_course_no c @ ''.html'',
              urls_root f @ upper s1 @ ''/'' @ str_course_no c @ ''.html''] \<and>
           r1 = (case net (requests f)
                          (urls_root f @ upper s1 @ ''/'' @ str_course_no c @ ''.html'') of
                   Inl e \<Rightarrow> Inl e | Inr es \<Rightarrow> UIUCSectionListParser es) \<and>
           r2 = (case net (requests f @
                            [urls_root f @ upper s1 @ ''/'' @ str_course_no c @ ''.html''])
                          (urls_root f @ upper s1 @ ''/'' @ str_course_no c @ ''.html'') of
                   Inl e \<Rightarrow> Inl e | Inr es \<Rightarrow> UIUCSectionListParser es) \<and>
           (\<forall>x1. r1 = Inr x1 \<longrightarrow> cached_sections f2 s1 c = Some x1) \<and>
           (\<forall>x2. r2 = Inr x2 \<longrightarrow> cached_sections f2 s2 c = Some x2)"
    unfolding c1 c2 prod.case
    using q1 q2 u v1 v2 e1 e2 assms(1) by (simp add: section_url_def)
qed

theorem case_variants_requested_twice_witness:
  "upper ''cs'' = upper ''CS'' \<and> ''cs'' \<noteq> ''CS'' \<and>
   fetch_course_list (\<lambda>log url. Inr course_page)
      (snd (fetch_course_list (\<lambda>log url. Inr course_page) (fetcher_init 2011 3 None None) ''cs''))
      ''CS'' =
     (Inr [''493''],
      \<lparr>urls_root = ''http://courses.illinois.edu/cis/2011/spring/schedule/'',
       urls_portal = ''http://courses.illinois.edu/cis/2011/spring/schedule/index.html'',
       subject_list = None,
       course_list = [(''cs'', [''493'']), (''CS'', [''493''])],
       section_list = [],
       requests = [''http://courses.illinois.edu/cis/2011/spring/schedule/CS/'',
                   ''http://courses.illinois.edu/cis/2011/spring/schedule/CS/'']\<rparr>) \<and>
   fetch_section_list (\<lambda>log url. Inr section_page)
      (snd (fetch_section_list (\<lambda>log url. Inr section_page) (fetcher_init 2011 3 None None)
              ''cs'' (IntNo 493)))
      ''CS'' (IntNo 493) =
     (Inr [(31260, [(''type'', ''LEC'')])],
      \<lparr>urls_root = ''http://courses.illinois.edu/cis/2011/spring/schedule/'',
       urls_portal = ''http://courses.illinois.edu/cis/2011/spring/schedule/index.html'',
       subject_list = None,
       course_list = [],
       section_list = [(''cs'', [(IntNo 493, [(31260, [(''type'', ''LEC'')])])]),
                       (''CS'', [(IntNo 493, [(31260, [(''type'', ''LEC'')])])])],
       requests = [''http://courses.illinois.edu/cis/2011/spring/schedule/CS/493.html'',
                   ''http://courses.illinois.edu/cis/2011/spring/schedule/CS/493.html'']\<rparr>)"
proof -
  have u: "upper ''cs'' = upper ''CS''" by (simp add: upper_CS)
  have n: "''cs'' \<noteq> ''CS''" by simp
  let ?f = "fetcher_init 2011 3 None None"
  have a: "\<not> truthy (map_of (course_list ?f) ''cs'')" "\<not> truthy (map_of (course_list ?f) ''CS'')"
    "\<not> truthy (cached_sections ?f ''cs'' (IntNo 493))"
    "\<not> truthy (cached_sections ?f ''CS'' (IntNo 493))"
    by (simp_all add: fetcher_2011 cached_sections_def)
  from case_variants_requested_twice [OF u n, of ?f "\<lambda>log url. Inr course_page" "IntNo 493",
      THEN conjunct1] a
  have c: "case fetch_course_list (\<lambda>log url. Inr course_page) ?f ''cs'' of (r1, f1) \<Rightarrow>
         case fetch_course_list (\<lambda>log url. Inr course_page) f1 ''CS'' of (r2, f2) \<Rightarrow>
           requests f2 = requests ?f @ [urls_root ?f @ upper ''cs'' @ ''/'',
             urls_root ?f @ upper ''cs'' @ ''/''] \<and>
           map_of (course_list f2) ''cs'' = Some [''493''] \<and>
           map_of (course_list f2) ''CS'' = Some [''493'']"
    by (auto simp: parse_course_page split: prod.splits)
  from case_variants_requested_twice [OF u n, of ?f "\<lambda>log url. Inr section_page" "IntNo 493",
      THEN conjunct2] a
  have s: "case fetch_section_list (\<lambda>log url. Inr section_page) ?f ''cs'' (IntNo 493) of (r1, f1) \<Rightarrow>
         case fetch_section_list (\<lambda>log url. Inr section_page) f1 ''CS'' (IntNo 493) of (r2, f2) \<Rightarrow>
           cached_sections f2 ''cs'' (IntNo 493) = Some [(31260, [(''type'', ''LEC'')])] \<and>
           cached_sections f2 ''CS'' (IntNo 493) = Some [(31260, [(''type'', ''LEC'')])]"
    by (auto simp: parse_section_page split: prod.splits)
  from c s show ?thesis
    by (simp add: fetcher_2011 fetch_course_list_def fetch_section_list_def parse_url_def
        parse_course_page parse_section_page upper_CS str_int_493 Let_def)
qed

section \<open>The entry point fetch\<close>

text \<open>
  The URL of a section list is not the URL of a course list, nor that of the portal.
\<close>

lemma section_url_not_course_url:
  "urls_root f @ upper s @ ''/'' @ str_course_no c @ ''.html'' \<noteq> urls_root f @ upper s' @ ''/''"
proof
  assume "urls_root f @ upper s @ ''/'' @ str_course_no c @ ''.html'' = urls_root f @ upper s' @ ''/''"
  then have "last (urls_root f @ upper s @ ''/'' @ str_course_no c @ ''.html'') =
      last (urls_root f @ upper s' @ ''/'')" by simp
  then show False by simp
qed

lemma section_url_not_portal:
  "urls_root f @ upper s @ ''/'' @ str_course_no c @ ''.html'' \<noteq> urls_root f @ ''index.html''"
proof
  assume "urls_root f @ upper s @ ''/'' @ str_course_no c @ ''.html'' = urls_root f @ ''index.html''"
  then have e: "upper s @ ''/'' @ str_course_no c @ ''.html'' = ''index.html''"
    by (simp only: same_append_eq)
  have "CHR ''/'' \<in> set (upper s @ ''/'' @ str_course_no c @ ''.html'')" by simp
  then have "CHR ''/'' \<in> set ''index.html''" by (simp only: e)
  then show False by simp
qed

text \<open>
  The portal URL of an instance the constructor built is its root URL followed by
  \<open>index.html\<close>.
\<close>

lemma init_portal:
  "urls_portal (fetcher_init ty tm y t) = urls_root (fetcher_init ty tm y t) @ ''index.html''"
  by (simp add: fetcher_init_def flush_def Let_def)

text \<open>
  \<open>fetch(subject, course_no)\<close> with a string and a course number. When the section list
  of that course is cached and not empty, the result is the one-entry mapping on the
  cached value and nothing is requested: the instance is unchanged. Otherwise one URL
  is requested, that of the section list, and the result is the one-entry mapping on
  the parsed sections (or the exception of the request or of the parse). That URL is
  neither a course list URL nor the portal URL.
\<close>

lemma fetch_single_course:
  "(\<forall>secs. cached_sections f s c = Some secs \<and> secs \<noteq> [] \<longrightarrow>
      fetch net f (Subject s) (Some c) = (Inr [(s, [(c, secs)])], f)) \<and>
   (\<not> truthy (cached_sections f s c) \<longrightarrow>
      (\<exists>f'. fetch net f (Subject s) (Some c) =
         (case (case net (requests f)
                       (urls_root f @ upper s @ ''/'' @ str_course_no c @ ''.html'') of
                  Inl e \<Rightarrow> Inl e | Inr es \<Rightarrow> UIUCSectionListParser es) of
            Inl e \<Rightarrow> Inl e
          | Inr secs \<Rightarrow> Inr [(s, [(c, secs)])], f') \<and>
         requests f' =
           requests f @ [urls_root f @ upper s @ ''/'' @ str_course_no c @ ''.html''])) \<and>
   (\<forall>s'. urls_root f @ upper s @ ''/'' @ str_course_no c @ ''.html'' \<noteq>
          urls_root f @ upper s' @ ''/'') \<and>
   (urls_portal f = urls_root f @ ''index.html'' \<longrightarrow>
      urls_root f @ upper s @ ''/'' @ str_course_no c @ ''.html'' \<noteq> urls_portal f)"
proof (intro conjI allI impI)
  fix secs assume "cached_sections f s c = Some secs \<and> secs \<noteq> []"
  then have "truthy (cached_sections f s c)" "the (cached_sections f s c) = secs"
    by (auto simp: truthy_iff neq_Nil_conv)
  with fetch_section_list_cached [of f s c net]
  show "fetch net f (Subject s) (Some c) = (Inr [(s, [(c, secs)])], f)"
    by (simp add: fetch_def)
next
  assume "\<not> truthy (cached_sections f s c)"
  from fetch_section_list_miss [OF this, of net]
  show "\<exists>f'. fetch net f (Subject s) (Some c) =
         (case (case net (requests f)
                       (urls_root f @ upper s @ ''/'' @ str_course_no c @ ''.html'') of
                  Inl e \<Rightarrow> Inl e | Inr es \<Rightarrow> UIUCSectionListParser es) of
            Inl e \<Rightarrow> Inl e
          | Inr secs \<Rightarrow> Inr [(s, [(c, secs)])], f') \<and>
         requests f' =
           requests f @ [urls_root f @ upper s @ ''/'' @ str_course_no c @ ''.html'']"
    by (auto simp: fetch_def section_url_def split: sum.splits)
next
  fix s' show "urls_root f @ upper s @ ''/'' @ str_course_no c @ ''.html'' \<noteq>
          urls_root f @ upper s' @ ''/''"
    by (rule section_url_not_course_url)
next
  assume "urls_portal f = urls_root f @ ''index.html''"
  then show "urls_root f @ upper s @ ''/'' @ str_course_no c @ ''.html'' \<noteq> urls_portal f"
    using section_url_not_portal [of f s c] by simp
qed

lemma fetch_single_course_example:
  "fst (fetch (\<lambda>log url. Inr section_page) (fetcher_init 2011 3 None None)
          (Subject ''CS'') (Some (IntNo 493))) =
     Inr [(''CS'', [(IntNo 493, [(31260, [(''type'', ''LEC'')])])])] \<and>
   requests (snd (fetch (\<lambda>log url. Inr section_page) (fetcher_init 2011 3 None None)
          (Subject ''CS'') (Some (IntNo 493)))) =
     [''http://courses.illinois.edu/cis/2011/spring/schedule/CS/493.html''] \<and>
   fetch (\<lambda>log url. Inl URLError)
     \<lparr>urls_root = ''r/'', urls_portal = ''r/index.html'', subject_list = None, course_list = [],
      section_list = [(''CS'', [(IntNo 493, [(31260, [])])])], requests = []\<rparr>
     (Subject ''CS'') (Some (IntNo 493)) =
     (Inr [(''CS'', [(IntNo 493, [(31260, [])])])],
      \<lparr>urls_root = ''r/'', urls_portal = ''r/index.html'', subject_list = None, course_list = [],
       section_list = [(''CS'', [(IntNo 493, [(31260, [])])])], requests = []\<rparr>)"
proof -
  let ?net = "\<lambda>(log :: string list) (url :: string). (Inr section_page :: error + html_event list)"
  let ?f = "fetcher_init 2011 3 None None"
  let ?g = "\<lparr>urls_root = ''r/'', urls_portal = ''r/index.html'', subject_list = None,
             course_list = [], section_list = [(''CS'', [(IntNo 493, [(31260, [])])])],
             requests = []\<rparr>"
  have nt: "\<not> truthy (cached_sections ?f ''CS'' (IntNo 493))"
    by (simp add: fetcher_2011 cached_sections_def)
  from fetch_single_course [of ?f "''CS''" "IntNo 493" ?net] nt
  obtain f' where
    "fetch ?net ?f (Subject ''CS'') (Some (IntNo 493)) =
       (case UIUCSectionListParser section_page of
          Inl e \<Rightarrow> Inl e
        | Inr secs \<Rightarrow> Inr [(''CS'', [(IntNo 493, secs)])], f')"
    and "requests f' = requests ?f @
       [urls_root ?f @ upper ''CS'' @ ''/'' @ str_course_no (IntNo 493) @ ''.html'']"
    by auto
  then have a: "fst (fetch ?net ?f (Subject ''CS'') (Some (IntNo 493))) =
      Inr [(''CS'', [(IntNo 493, [(31260, [(''type'', ''LEC'')])])])]"
    and b: "requests (snd (fetch ?net ?f (Subject ''CS'') (Some (IntNo 493)))) =
      [''http://courses.illinois.edu/cis/2011/spring/schedule/CS/493.html'']"
    by (simp_all add: parse_section_page fetcher_2011 upper_CS str_int_493)
  have "cached_sections ?g ''CS'' (IntNo 493) = Some [(31260, [])] \<and> [(31260::int, [])] \<noteq> ([] :: sections)"
    by (simp add: cached_sections_def)
  with fetch_single_course [of ?g "''CS''" "IntNo 493" "\<lambda>log url. Inl URLError"]
  have c: "fetch (\<lambda>log url. Inl URLError) ?g (Subject ''CS'') (Some (IntNo 493)) =
      (Inr [(''CS'', [(IntNo 493, [(31260, [])])])], ?g)"
    by blast
  from a b c show ?thesis by simp
qed

text \<open>
  C7. The claim: \<open>fetch\<close> with a string and a course number makes the one section list
  request, or none when the section list is cached. A section list that parsed to no
  section is cached as the empty dictionary and is requested again: on a resource with
  no markup, \<open>fetch('CS', 493)\<close> returns the one-entry mapping on the empty dictionary
  and stores it, and the second \<open>fetch('CS', 493)\<close> requests the same URL once more.
\<close>

theorem cached_empty_sections_requested_again:
  "fst (fetch (\<lambda>log url. Inr []) (fetcher_init 2011 3 None None)
          (Subject ''CS'') (Some (IntNo 493))) = Inr [(''CS'', [(IntNo 493, [])])] \<and>
   cached_sections (snd (fetch (\<lambda>log url. Inr []) (fetcher_init 2011 3 None None)
          (Subject ''CS'') (Some (IntNo 493)))) ''CS'' (IntNo 493) = Some [] \<and>
   requests (snd (fetch (\<lambda>log url. Inr [])
      (snd (fetch (\<lambda>log url. Inr []) (fetcher_init 2011 3 None None)
              (Subject ''CS'') (Some (IntNo 493))))
      (Subject ''CS'') (Some (IntNo 493)))) =
     [''http://courses.illinois.edu/cis/2011/spring/schedule/CS/493.html'',
      ''http://courses.illinois.edu/cis/2011/spring/schedule/CS/493.html'']"
  by (simp add: fetch_def fetcher_2011 fetch_section_list_def parse_url_def parse_nothing
      upper_CS str_int_493 cached_sections_def Let_def)

text \<open>
  The two loops of \<open>fetch\<close>: the result holds exactly the subjects of the list, each with
  exactly the courses of its cached course list, each with its cached sections.
\<close>

lemma fetch_courses_mirror:
  assumes "fetch_courses net s cl acc f = (Inr bc, f')"
    and "\<forall>k secs. map_of acc k = Some secs \<longrightarrow> cached_sections f s k = Some secs"
  shows "fst ` set bc = fst ` set acc \<union> StrNo ` set cl \<and>
    (\<forall>k secs. map_of bc k = Some secs \<longrightarrow> cached_sections f' s k = Some secs) \<and>
    course_list f' = course_list f \<and> subject_list f' = subject_list f \<and>
    (\<forall>s' k. s' \<noteq> s \<longrightarrow> cached_sections f' s' k = cached_sections f s' k)"
  using assms
proof (induction cl arbitrary: acc f)
  case Nil
  then show ?case by simp
next
  case (Cons c cl)
  from Cons.prems(1) obtain r f1 where
    step: "fetch_section_list net f s (StrNo c) = (Inr r, f1)" and
    rest: "fetch_courses net s cl (AList.update (StrNo c) r acc) f1 = (Inr bc, f')"
    by (auto split: prod.splits sum.splits)
  have inv: "\<forall>k secs. map_of (AList.update (StrNo c) r acc) k = Some secs \<longrightarrow>
      cached_sections f1 s k = Some secs"
  proof (intro allI impI)
    fix k secs assume a: "map_of (AList.update (StrNo c) r acc) k = Some secs"
    show "cached_sections f1 s k = Some secs"
    proof (cases "k = StrNo c")
      case True
      with a have "secs = r" by (simp add: update_conv')
      with True fetch_section_list_effect(7) [OF step] show ?thesis by simp
    next
      case False
      with a have "map_of acc k = Some secs" by (simp add: update_conv')
      with Cons.prems(2) have "cached_sections f s k = Some secs" by blast
      with False fetch_section_list_effect(6) [OF step, of k] show ?thesis by simp
    qed
  qed
  from Cons.IH [OF rest inv]
  have ih: "fst ` set bc = fst ` set (AList.update (StrNo c) r acc) \<union> StrNo ` set cl"
    "\<forall>k secs. map_of bc k = Some secs \<longrightarrow> cached_sections f' s k = Some secs"
    "course_list f' = course_list f1" "subject_list f' = subject_list f1"
    "\<forall>s' k. s' \<noteq> s \<longrightarrow> cached_sections f' s' k = cached_sections f1 s' k"
    by simp_all
  show ?case
    using ih fetch_section_list_effect(3,4) [OF step] fetch_section_list_effect(5) [OF step]
    by (auto simp: dom_update)
qed

lemma fetch_subjects_mirror:
  assumes "fetch_subjects net l acc f = (Inr res, f')"
    and "\<forall>s bc. map_of acc s = Some bc \<longrightarrow>
           (\<exists>cl. map_of (course_list f) s = Some cl \<and> fst ` set bc = StrNo ` set cl \<and>
                 (\<forall>k secs. map_of bc k = Some secs \<longrightarrow> cached_sections f s k = Some secs))"
  shows "fst ` set res = fst ` set acc \<union> set l \<and>
    (\<forall>s bc. map_of res s = Some bc \<longrightarrow>
           (\<exists>cl. map_of (course_list f') s = Some cl \<and> fst ` set bc = StrNo ` set cl \<and>
                 (\<forall>k secs. map_of bc k = Some secs \<longrightarrow> cached_sections f' s k = Some secs))) \<and>
    subject_list f' = subject_list f"
  using assms
proof (induction l arbitrary: acc f)
  case Nil
  then show ?case by simp
next
  case (Cons s l)
  from Cons.prems(1) obtain cl f1 bc f2 where
    s1: "fetch_course_list net f s = (Inr cl, f1)" and
    s2: "fetch_courses net s cl [] f1 = (Inr bc, f2)" and
    rest: "fetch_subjects net l (AList.update s bc acc) f2 = (Inr res, f')"
    by (auto split: prod.splits sum.splits)
  from fetch_courses_mirror [OF s2]
  have m: "fst ` set bc = StrNo ` set cl"
    "\<forall>k secs. map_of bc k = Some secs \<longrightarrow> cached_sections f2 s k = Some secs"
    "course_list f2 = course_list f1" "subject_list f2 = subject_list f1"
    "\<forall>s' k. s' \<noteq> s \<longrightarrow> cached_sections f2 s' k = cached_sections f1 s' k"
    by simp_all
  have inv: "\<forall>s' bc'. map_of (AList.update s bc acc) s' = Some bc' \<longrightarrow>
      (\<exists>cl'. map_of (course_list f2) s' = Some cl' \<and> fst ` set bc' = StrNo ` set cl' \<and>
         (\<forall>k secs. map_of bc' k = Some secs \<longrightarrow> cached_sections f2 s' k = Some secs))"
  proof (intro allI impI)
    fix s' bc' assume a: "map_of (AList.update s bc acc) s' = Some bc'"
    show "\<exists>cl'. map_of (course_list f2) s' = Some cl' \<and> fst ` set bc' = StrNo ` set cl' \<and>
         (\<forall>k secs. map_of bc' k = Some secs \<longrightarrow> cached_sections f2 s' k = Some secs)"
    proof (cases "s' = s")
      case True
      with a have "bc' = bc" by (simp add: update_conv')
      with True m fetch_course_list_effect(6) [OF s1] show ?thesis by simp
    next
      case False
      with a have "map_of acc s' = Some bc'" by (simp add: update_conv')
      with Cons.prems(2) obtain cl' where
        c: "map_of (course_list f) s' = Some cl'" "fst ` set bc' = StrNo ` set cl'"
        "\<forall>k secs. map_of bc' k = Some secs \<longrightarrow> cached_sections f s' k = Some secs"
        by blast
      have "map_of (course_list f2) s' = Some cl'"
        using c(1) m(3) fetch_course_list_effect(5) [OF s1, of s'] False by simp
      moreover have "\<forall>k. cached_sections f2 s' k = cached_sections f s' k"
        using m(5) False fetch_course_list_effect(3) [OF s1] by (simp add: cached_sections_def)
      ultimately show ?thesis using c by auto
    qed
  qed
  from Cons.IH [OF rest inv]
  show ?case
    using m(4) fetch_course_list_effect(4) [OF s1] by (auto simp: dom_update)
qed

lemma fetch_list_restricted:
  assumes "fetch net f (SubjectList l) c = (Inr res, f')"
  shows "fst ` set res = set l"
    and "\<forall>s \<in> set l. \<exists>cl bc. map_of (course_list f') s = Some cl \<and> map_of res s = Some bc \<and>
           fst ` set bc = StrNo ` set cl \<and>
           (\<forall>k \<in> set cl. \<exists>secs. map_of bc (StrNo k) = Some secs \<and>
                                cached_sections f' s (StrNo k) = Some secs)"
proof -
  from assms have r: "fetch_subjects net l [] f = (Inr res, f')"
    by (simp add: fetch_def)
  from fetch_subjects_mirror [OF r]
  have d: "fst ` set res = set l"
    and m: "\<forall>s bc. map_of res s = Some bc \<longrightarrow>
           (\<exists>cl. map_of (course_list f') s = Some cl \<and> fst ` set bc = StrNo ` set cl \<and>
                 (\<forall>k secs. map_of bc k = Some secs \<longrightarrow> cached_sections f' s k = Some secs))"
    by simp_all
  show "fst ` set res = set l" by (rule d)
  show "\<forall>s \<in> set l. \<exists>cl bc. map_of (course_list f') s = Some cl \<and> map_of res s = Some bc \<and>
           fst ` set bc = StrNo ` set cl \<and>
           (\<forall>k \<in> set cl. \<exists>secs. map_of bc (StrNo k) = Some secs \<and>
                                cached_sections f' s (StrNo k) = Some secs)"
  proof
    fix s assume "s \<in> set l"
    with d have "s \<in> fst ` set res" by simp
    then obtain bc where bc: "map_of res s = Some bc"
      by (metis map_of_eq_None_iff not_Some_eq)
    with m obtain cl where cl: "map_of (course_list f') s = Some cl" "fst ` set bc = StrNo ` set cl"
      "\<forall>k secs. map_of bc k = Some secs \<longrightarrow> cached_sections f' s k = Some secs"
      by blast
    have "\<forall>k \<in> set cl. \<exists>secs. map_of bc (StrNo k) = Some secs \<and>
                                cached_sections f' s (StrNo k) = Some secs"
    proof
      fix k assume "k \<in> set cl"
      with cl(2) have "StrNo k \<in> fst ` set bc" by simp
      then obtain secs where "map_of bc (StrNo k) = Some secs"
        by (metis map_of_eq_None_iff not_Some_eq)
      with cl(3) show "\<exists>secs. map_of bc (StrNo k) = Some secs \<and>
                                cached_sections f' s (StrNo k) = Some secs" by blast
    qed
    with bc cl show "\<exists>cl bc. map_of (course_list f') s = Some cl \<and> map_of res s = Some bc \<and>
           fst ` set bc = StrNo ` set cl \<and>
           (\<forall>k \<in> set cl. \<exists>secs. map_of bc (StrNo k) = Some secs \<and>
                                cached_sections f' s (StrNo k) = Some secs)" by blast
  qed
qed

text \<open>
  C6. The claim: a collection of subjects restricts the result to those subjects. A tuple,
  the collection the docstring names, is handled as no subject at all: with a portal that
  lists ECE, \<open>fetch(('CS',))\<close> requests the portal and returns the mapping for ECE.
\<close>

theorem tuple_fetches_every_subject:
  "fetch net f (SubjectTuple l) c = fetch net f NoSubject None \<and>
   fst (fetch (\<lambda>log url. if log = [] then Inr portal_page else Inr [])
          (fetcher_init 2011 3 None None) (SubjectTuple [''CS'']) None) = Inr [(''ECE'', [])] \<and>
   requests (snd (fetch (\<lambda>log url. if log = [] then Inr portal_page else Inr [])
          (fetcher_init 2011 3 None None) (SubjectTuple [''CS'']) None)) =
     [''http://courses.illinois.edu/cis/2011/spring/schedule/index.html'',
      ''http://courses.illinois.edu/cis/2011/spring/schedule/ECE/'']"
  by (simp add: fetch_def fetcher_2011 fetch_subject_list_def fetch_course_list_def parse_url_def
      parse_portal_page parse_nothing upper_CS Let_def)

end
